(* ===== verification/Prelude.thy ===== *)
theory Prelude
  imports Main
begin

text \<open>
  Shared vocabulary of the development. The script \<^verbatim>\<open>src/app.js\<close> runs its
  statements one after another on the browser's state; a statement that reads a
  property of \<^verbatim>\<open>null\<close> throws a \<^verbatim>\<open>TypeError\<close>, which aborts the rest of the
  listener but keeps every effect made before it. A statement is therefore a function
  from a state to an \<open>outcome\<close>: \<open>Ok s\<close>, or \<open>Thrown e s\<close> with the state at the
  throw point. \<open>js_seq\<close> runs a statement list, \<open>on\<close> is a method call on a
  reference that may be null, \<open>js_for_each\<close> is \<^verbatim>\<open>Array.prototype.forEach\<close>.
\<close>

named_theorems js_simps "evaluation rules of the statement combinators"
named_theorems dom_simps "frame and read-after-write rules of the DOM operations"

type_synonym elem = nat

datatype js_error = TypeError | SyntaxError

datatype 's outcome = Ok 's | Thrown js_error 's

type_synonym 's stmt = "'s \<Rightarrow> 's outcome"

fun js_bind :: "'s outcome \<Rightarrow> 's stmt \<Rightarrow> 's outcome" where
  "js_bind (Ok s) f = f s"
| "js_bind (Thrown e s) f = Thrown e s"

text \<open>The state a listener leaves behind, whether it returned or threw.\<close>

fun final_state :: "'s outcome \<Rightarrow> 's" where
  "final_state (Ok s) = s"
| "final_state (Thrown e s) = s"

fun threw :: "'s outcome \<Rightarrow> bool" where
  "threw (Ok s) = False"
| "threw (Thrown e s) = True"

text \<open>Statements in sequence; the first throw ends the block.\<close>

fun js_seq :: "'s stmt list \<Rightarrow> 's stmt" where
  "js_seq [] s = Ok s"
| "js_seq (f # fs) s = js_bind (f s) (js_seq fs)"

text \<open>A statement that cannot throw.\<close>

definition stmt :: "('s \<Rightarrow> 's) \<Rightarrow> 's stmt" where
  "stmt f s = Ok (f s)"

text \<open>\<^verbatim>\<open>r.m(...)\<close> on a reference \<open>r\<close> that may be \<^verbatim>\<open>null\<close>.\<close>

definition on :: "'a option \<Rightarrow> ('a \<Rightarrow> 's \<Rightarrow> 's) \<Rightarrow> 's stmt" where
  "on r f s = (case r of None \<Rightarrow> Thrown TypeError s | Some x \<Rightarrow> Ok (f x s))"

text \<open>A block that first dereferences \<open>r\<close> and then runs statements on it.\<close>

definition deref :: "'a option \<Rightarrow> ('a \<Rightarrow> 's stmt) \<Rightarrow> 's stmt" where
  "deref r f s = (case r of None \<Rightarrow> Thrown TypeError s | Some x \<Rightarrow> f x s)"

text \<open>\<^verbatim>\<open>xs.forEach(f)\<close>: stops at the first throw.\<close>

fun js_for_each :: "('a \<Rightarrow> 's stmt) \<Rightarrow> 'a list \<Rightarrow> 's stmt" where
  "js_for_each f [] s = Ok s"
| "js_for_each f (x # xs) s = js_bind (f x s) (js_for_each f xs)"

text \<open>The element that follows \<open>x\<close> in a list, if any.\<close>

fun next_after :: "'a list \<Rightarrow> 'a \<Rightarrow> 'a option" where
  "next_after (y # z # zs) x = (if y = x then Some z else next_after (z # zs) x)"
| "next_after _ x = None"

text \<open>\<^verbatim>\<open>xs[i]\<close> of a JavaScript array: \<^verbatim>\<open>undefined\<close> (here \<open>None\<close>) out of range.\<close>

definition js_index :: "'a list \<Rightarrow> int \<Rightarrow> 'a option" where
  "js_index xs i = (if 0 \<le> i \<and> i < int (length xs) then Some (xs ! nat i) else None)"

subsection \<open>Evaluation rules\<close>

lemma stmt_eval [simp, js_simps]: "stmt f s = Ok (f s)"
  by (simp add: stmt_def)

lemma on_None [simp, js_simps]: "on None f s = Thrown TypeError s"
  and on_Some [simp, js_simps]: "on (Some x) f s = Ok (f x s)"
  by (simp_all add: on_def)

lemma deref_None [simp, js_simps]: "deref None f s = Thrown TypeError s"
  and deref_Some [simp, js_simps]: "deref (Some x) f s = f x s"
  by (simp_all add: deref_def)

lemma js_bind_assoc [js_simps]:
  "js_bind (js_bind r f) g = js_bind r (\<lambda>s. js_bind (f s) g)"
  by (cases r) simp_all

lemma js_bind_Ok_iff [js_simps]:
  "js_bind r f = Ok t \<longleftrightarrow> (\<exists>s. r = Ok s \<and> f s = Ok t)"
  by (cases r) simp_all

lemma js_seq_append [js_simps]:
  "js_seq (fs @ gs) s = js_bind (js_seq fs s) (js_seq gs)"
proof (induction fs arbitrary: s)
  case (Cons f fs)
  then show ?case by (cases "f s") simp_all
qed simp

lemma js_seq_single [simp, js_simps]: "js_seq [f] = f"
proof
  fix s
  show "js_seq [f] s = f s" by (cases "f s") simp_all
qed

lemma js_seq_stmts [js_simps]:
  "js_seq (map stmt fs) s = Ok (fold (\<lambda>f s. f s) fs s)"
  by (induction fs arbitrary: s) simp_all

lemma js_for_each_append [js_simps]:
  "js_for_each f (xs @ ys) s = js_bind (js_for_each f xs s) (js_for_each f ys)"
proof (induction xs arbitrary: s)
  case (Cons x xs)
  then show ?case by (cases "f x s") simp_all
qed simp

text \<open>A property every statement keeps is kept by sequences and loops of them.\<close>

lemma js_bind_preserves:
  assumes "P (final_state r)" and "\<And>s. P s \<Longrightarrow> P (final_state (f s))"
  shows "P (final_state (js_bind r f))"
  using assms by (cases r) simp_all

lemma js_seq_preserves:
  assumes "\<forall>f \<in> set fs. \<forall>s. P s \<longrightarrow> P (final_state (f s))" and "P s"
  shows "P (final_state (js_seq fs s))"
  using assms
proof (induction fs arbitrary: s)
  case Nil
  then show ?case by simp
next
  case (Cons f fs)
  then have "P (final_state (f s))" by simp
  with Cons show ?case by (cases "f s") simp_all
qed

lemma js_for_each_preserves:
  assumes "\<forall>x \<in> set xs. \<forall>s. P s \<longrightarrow> P (final_state (f x s))" and "P s"
  shows "P (final_state (js_for_each f xs s))"
  using assms
proof (induction xs arbitrary: s)
  case Nil
  then show ?case by simp
next
  case (Cons x xs)
  then have "P (final_state (f x s))" by simp
  with Cons show ?case by (cases "f x s") simp_all
qed

text \<open>A relation every statement establishes between its input and final state.\<close>

lemma js_seq_grows:
  assumes "\<forall>f \<in> set fs. \<forall>s. R s (final_state (f s))" and "\<And>x. R x x"
    and "\<And>x y z. R x y \<Longrightarrow> R y z \<Longrightarrow> R x z"
  shows "R s (final_state (js_seq fs s))"
  using assms(1)
proof (induction fs arbitrary: s)
  case Nil
  then show ?case using assms(2) by simp
next
  case (Cons f fs)
  then have "R s (final_state (f s))" by simp
  with Cons show ?case using assms(3) by (cases "f s") auto
qed

lemma js_for_each_grows:
  assumes "\<forall>x \<in> set xs. \<forall>s. R s (final_state (f x s))" and "\<And>x. R x x"
    and "\<And>x y z. R x y \<Longrightarrow> R y z \<Longrightarrow> R x z"
  shows "R s (final_state (js_for_each f xs s))"
  using assms(1)
proof (induction xs arbitrary: s)
  case Nil
  then show ?case using assms(2) by simp
next
  case (Cons x xs)
  then have "R s (final_state (f x s))" by simp
  with Cons show ?case using assms(3) by (cases "f x s") auto
qed

subsection \<open>Lists\<close>

lemma js_index_first [simp]: "js_index xs 0 = (case xs of [] \<Rightarrow> None | x # _ \<Rightarrow> Some x)"
  by (cases xs) (simp_all add: js_index_def)

lemma js_index_last [simp]:
  "js_index xs (int (length xs) - 1) = (if xs = [] then None else Some (last xs))"
  by (cases xs rule: rev_cases) (simp_all add: js_index_def nth_append)


text \<open>The successor in a list, used for sequential focus navigation.\<close>

lemma next_after_set: "next_after xs x = Some y \<Longrightarrow> y \<in> set xs"
  by (induction xs x rule: next_after.induct) (auto split: if_splits)

lemma next_after_append_left:
  "x \<notin> set xs \<Longrightarrow> next_after (xs @ ys) x = next_after ys x"
proof (induction xs)
  case (Cons a xs)
  then show ?case by (cases "xs @ ys") auto
qed simp

lemma next_after_append_right:
  "x \<in> set ys \<Longrightarrow> x \<noteq> last ys \<Longrightarrow> next_after (ys @ zs) x = next_after ys x"
  by (induction ys x rule: next_after.induct) auto

lemma next_after_exists:
  "x \<in> set ys \<Longrightarrow> x \<noteq> last ys \<Longrightarrow> next_after ys x \<noteq> None"
  by (induction ys x rule: next_after.induct) auto


lemma next_after_last:
  "distinct xs \<Longrightarrow> next_after xs (last xs) = None"
  by (induction xs "last xs" rule: next_after.induct) auto

end
