(* ===== verification/Dom.thy ===== *)
theory Dom
  imports Prelude "HOL-Library.Multiset"
begin

text \<open>
  The browser state that \<^verbatim>\<open>src/app.js\<close> reads and writes: the document tree (static:
  the script never inserts or removes nodes), each element's class list, attributes,
  inline \<^verbatim>\<open>style.transform\<close> and static text, the focused element, the window
  width, the registered event listeners, the pending timers, the console and the
  default-action flag of the event being dispatched. The record is polymorphic in the
  type \<open>'l\<close> of listener closures and \<open>'c\<close> of timer callbacks, which the script's
  theories fix. Queries follow the DOM: \<^verbatim>\<open>querySelectorAll\<close> lists matches in
  document order, \<^verbatim>\<open>querySelector\<close> returns the first or \<^verbatim>\<open>null\<close>.
\<close>

datatype node = Node elem "node list"

fun doc_order :: "node \<Rightarrow> elem list" where
  "doc_order (Node e cs) = e # concat (map doc_order cs)"

fun subtree :: "elem \<Rightarrow> node \<Rightarrow> node option"
  and subtree_list :: "elem \<Rightarrow> node list \<Rightarrow> node option" where
  "subtree e (Node x cs) = (if x = e then Some (Node x cs) else subtree_list e cs)"
| "subtree_list e [] = None"
| "subtree_list e (c # cs) = (case subtree e c of Some n \<Rightarrow> Some n | None \<Rightarrow> subtree_list e cs)"

text \<open>The propagation path of an event: the target's ancestors, root first.\<close>

fun path_to :: "elem \<Rightarrow> node \<Rightarrow> elem list option"
  and path_to_list :: "elem \<Rightarrow> node list \<Rightarrow> elem list option" where
  "path_to e (Node x cs) = (if x = e then Some [x] else map_option (Cons x) (path_to_list e cs))"
| "path_to_list e [] = None"
| "path_to_list e (c # cs) = (case path_to e c of Some p \<Rightarrow> Some p | None \<Rightarrow> path_to_list e cs)"

definition descendants :: "node \<Rightarrow> elem \<Rightarrow> elem list" where
  "descendants t e = (case subtree e t of None \<Rightarrow> [] | Some n \<Rightarrow> tl (doc_order n))"

datatype target = Win | Doc | El elem

datatype event_type = Click | Keydown | Resize | MouseEnter | MouseLeave | Load | DOMContentLoaded

datatype log_entry = Log string | Warn string | Uncaught js_error

record ('l, 'c) dom =
  tree :: node
  classes :: "elem \<Rightarrow> string list"
  attrs :: "elem \<Rightarrow> string \<Rightarrow> string option"
  transform :: "elem \<Rightarrow> string"
  text_content :: "elem \<Rightarrow> string"
  tag :: "elem \<Rightarrow> string"
  active :: elem
  inner_width :: int
  listeners :: "(target \<times> event_type \<times> 'l) list"
  timers :: "(nat \<times> 'c) list"
  now :: nat
  console :: "log_entry list"
  default_prevented :: bool
  scrolled :: "elem list"
  hostname :: string
  has_performance :: bool
  navigation_start :: int
  load_event_end :: int

subsection \<open>Queries\<close>

definition has_class :: "('l, 'c) dom \<Rightarrow> elem \<Rightarrow> string \<Rightarrow> bool" where
  "has_class s e c \<longleftrightarrow> c \<in> set (classes s e)"

definition query_all :: "('l, 'c) dom \<Rightarrow> string \<Rightarrow> elem list" where
  "query_all s c = filter (\<lambda>e. has_class s e c) (doc_order (tree s))"

definition query :: "('l, 'c) dom \<Rightarrow> string \<Rightarrow> elem option" where
  "query s c = find (\<lambda>e. has_class s e c) (doc_order (tree s))"

definition query_all_in :: "('l, 'c) dom \<Rightarrow> elem \<Rightarrow> string \<Rightarrow> elem list" where
  "query_all_in s r c = filter (\<lambda>e. has_class s e c) (descendants (tree s) r)"

definition query_in :: "('l, 'c) dom \<Rightarrow> elem \<Rightarrow> string \<Rightarrow> elem option" where
  "query_in s r c = find (\<lambda>e. has_class s e c) (descendants (tree s) r)"

subsection \<open>Operations\<close>

text \<open>\<^verbatim>\<open>classList.add\<close> appends a token that is absent; \<^verbatim>\<open>remove\<close> drops it.\<close>

definition class_add :: "elem \<Rightarrow> string \<Rightarrow> ('l, 'c) dom \<Rightarrow> ('l, 'c) dom" where
  "class_add e c s =
     s\<lparr>classes := (classes s)(e := (if c \<in> set (classes s e) then classes s e else classes s e @ [c]))\<rparr>"

definition class_remove :: "elem \<Rightarrow> string \<Rightarrow> ('l, 'c) dom \<Rightarrow> ('l, 'c) dom" where
  "class_remove e c s = s\<lparr>classes := (classes s)(e := removeAll c (classes s e))\<rparr>"

definition set_attribute :: "elem \<Rightarrow> string \<Rightarrow> string \<Rightarrow> ('l, 'c) dom \<Rightarrow> ('l, 'c) dom" where
  "set_attribute e a v s = s\<lparr>attrs := (attrs s)(e := (attrs s e)(a \<mapsto> v))\<rparr>"

definition set_transform :: "elem \<Rightarrow> string \<Rightarrow> ('l, 'c) dom \<Rightarrow> ('l, 'c) dom" where
  "set_transform e v s = s\<lparr>transform := (transform s)(e := v)\<rparr>"

definition focus :: "elem \<Rightarrow> ('l, 'c) dom \<Rightarrow> ('l, 'c) dom" where
  "focus e s = s\<lparr>active := e\<rparr>"

definition console_log :: "log_entry \<Rightarrow> ('l, 'c) dom \<Rightarrow> ('l, 'c) dom" where
  "console_log m s = s\<lparr>console := console s @ [m]\<rparr>"

definition prevent_default :: "('l, 'c) dom \<Rightarrow> ('l, 'c) dom" where
  "prevent_default s = s\<lparr>default_prevented := True\<rparr>"

text \<open>\<^verbatim>\<open>scrollIntoView({behavior: 'smooth'})\<close>: the scroll requests made, in order.\<close>

definition scroll_into_view :: "elem \<Rightarrow> ('l, 'c) dom \<Rightarrow> ('l, 'c) dom" where
  "scroll_into_view e s = s\<lparr>scrolled := scrolled s @ [e]\<rparr>"

definition add_listener :: "target \<Rightarrow> event_type \<Rightarrow> 'l \<Rightarrow> ('l, 'c) dom \<Rightarrow> ('l, 'c) dom" where
  "add_listener t ty l s = s\<lparr>listeners := listeners s @ [(t, ty, l)]\<rparr>"

text \<open>
  \<^verbatim>\<open>setTimeout(cb, d)\<close>: the timer is due at \<open>now + d\<close>; timers run in order of due
  time, and timers due at the same time in the order they were set. The queue is kept
  sorted by due time and a new timer goes after every timer due no later.
\<close>

fun ins_timer :: "nat \<times> 'c \<Rightarrow> (nat \<times> 'c) list \<Rightarrow> (nat \<times> 'c) list" where
  "ins_timer t [] = [t]"
| "ins_timer t (u # us) = (if fst t < fst u then t # u # us else u # ins_timer t us)"

definition set_timeout :: "nat \<Rightarrow> 'c \<Rightarrow> ('l, 'c) dom \<Rightarrow> ('l, 'c) dom" where
  "set_timeout d cb s = s\<lparr>timers := ins_timer (now s + d, cb) (timers s)\<rparr>"

subsection \<open>Read-after-write rules\<close>

lemma has_class_add [simp, dom_simps]:
  "has_class (class_add e c s) e' c' \<longleftrightarrow> (e' = e \<and> c' = c) \<or> has_class s e' c'"
  by (auto simp: has_class_def class_add_def)

lemma has_class_remove [simp, dom_simps]:
  "has_class (class_remove e c s) e' c' \<longleftrightarrow> has_class s e' c' \<and> \<not> (e' = e \<and> c' = c)"
  by (auto simp: has_class_def class_remove_def)

lemma attrs_set_attribute [simp, dom_simps]:
  "attrs (set_attribute e a v s) e' a' = (if e' = e \<and> a' = a then Some v else attrs s e' a')"
  by (simp add: set_attribute_def)

text \<open>
  Each operation writes one field; the others are kept. The class-list lemmas below
  are what the menu's invariant proofs use: only \<open>class_add\<close> and \<open>class_remove\<close>
  change a class.
\<close>

lemma has_class_frame [simp, dom_simps]:
  "has_class (set_attribute e a v s) x c = has_class s x c"
  "has_class (set_transform e t s) x c = has_class s x c"
  "has_class (focus e s) x c = has_class s x c"
  "has_class (console_log m s) x c = has_class s x c"
  "has_class (prevent_default s) x c = has_class s x c"
  "has_class (add_listener tg ty l s) x c = has_class s x c"
  "has_class (set_timeout d cb s) x c = has_class s x c"
  "has_class (scroll_into_view e s) x c = has_class s x c"
  by (simp_all add: has_class_def set_attribute_def set_transform_def focus_def
      console_log_def prevent_default_def add_listener_def set_timeout_def scroll_into_view_def)

lemma attrs_frame [simp, dom_simps]:
  "attrs (class_add e c s) = attrs s"
  "attrs (class_remove e c s) = attrs s"
  "attrs (set_transform e t s) = attrs s"
  "attrs (focus e s) = attrs s"
  "attrs (console_log m s) = attrs s"
  "attrs (prevent_default s) = attrs s"
  "attrs (add_listener tg ty l s) = attrs s"
  "attrs (set_timeout d cb s) = attrs s"
  "attrs (scroll_into_view e s) = attrs s"
  by (simp_all add: class_add_def class_remove_def set_transform_def focus_def
      console_log_def prevent_default_def add_listener_def set_timeout_def scroll_into_view_def)

lemma tree_frame [simp, dom_simps]:
  "tree (class_add e c s) = tree s"
  "tree (class_remove e c s) = tree s"
  "tree (set_attribute e a v s) = tree s"
  "tree (set_transform e t s) = tree s"
  "tree (focus e s) = tree s"
  "tree (console_log m s) = tree s"
  "tree (prevent_default s) = tree s"
  "tree (add_listener tg ty l s) = tree s"
  "tree (set_timeout d cb s) = tree s"
  "tree (scroll_into_view e s) = tree s"
  by (simp_all add: class_add_def class_remove_def set_attribute_def set_transform_def focus_def
      console_log_def prevent_default_def add_listener_def set_timeout_def scroll_into_view_def)

lemma active_frame [simp, dom_simps]:
  "active (class_add e c s) = active s"
  "active (class_remove e c s) = active s"
  "active (set_attribute e a v s) = active s"
  "active (set_transform e t s) = active s"
  "active (focus e s) = e"
  "active (console_log m s) = active s"
  "active (prevent_default s) = active s"
  "active (add_listener tg ty l s) = active s"
  "active (set_timeout d cb s) = active s"
  "active (scroll_into_view e s) = active s"
  by (simp_all add: class_add_def class_remove_def set_attribute_def set_transform_def focus_def
      console_log_def prevent_default_def add_listener_def set_timeout_def scroll_into_view_def)

lemma timers_frame [simp, dom_simps]:
  "timers (class_add e c s) = timers s"
  "timers (class_remove e c s) = timers s"
  "timers (set_attribute e a v s) = timers s"
  "timers (set_transform e t s) = timers s"
  "timers (focus e s) = timers s"
  "timers (console_log m s) = timers s"
  "timers (prevent_default s) = timers s"
  "timers (add_listener tg ty l s) = timers s"
  "timers (set_timeout d cb s) = ins_timer (now s + d, cb) (timers s)"
  "timers (scroll_into_view e s) = timers s"
  by (simp_all add: class_add_def class_remove_def set_attribute_def set_transform_def focus_def
      console_log_def prevent_default_def add_listener_def set_timeout_def scroll_into_view_def)

lemma now_frame [simp, dom_simps]:
  "now (class_add e c s) = now s"
  "now (class_remove e c s) = now s"
  "now (set_attribute e a v s) = now s"
  "now (set_transform e t s) = now s"
  "now (focus e s) = now s"
  "now (console_log m s) = now s"
  "now (prevent_default s) = now s"
  "now (add_listener tg ty l s) = now s"
  "now (set_timeout d cb s) = now s"
  "now (scroll_into_view e s) = now s"
  by (simp_all add: class_add_def class_remove_def set_attribute_def set_transform_def focus_def
      console_log_def prevent_default_def add_listener_def set_timeout_def scroll_into_view_def)

lemma default_prevented_frame [simp, dom_simps]:
  "default_prevented (class_add e c s) = default_prevented s"
  "default_prevented (class_remove e c s) = default_prevented s"
  "default_prevented (set_attribute e a v s) = default_prevented s"
  "default_prevented (set_transform e t s) = default_prevented s"
  "default_prevented (focus e s) = default_prevented s"
  "default_prevented (console_log m s) = default_prevented s"
  "default_prevented (prevent_default s) = True"
  "default_prevented (add_listener tg ty l s) = default_prevented s"
  "default_prevented (set_timeout d cb s) = default_prevented s"
  "default_prevented (scroll_into_view e s) = default_prevented s"
  by (simp_all add: class_add_def class_remove_def set_attribute_def set_transform_def focus_def
      console_log_def prevent_default_def add_listener_def set_timeout_def scroll_into_view_def)

lemma classes_frame [simp, dom_simps]:
  "classes (set_attribute e a v s) = classes s"
  "classes (set_transform e t s) = classes s"
  "classes (focus e s) = classes s"
  "classes (console_log m s) = classes s"
  "classes (prevent_default s) = classes s"
  "classes (add_listener tg ty l s) = classes s"
  "classes (set_timeout d cb s) = classes s"
  "classes (scroll_into_view e s) = classes s"
  by (simp_all add: set_attribute_def set_transform_def focus_def console_log_def
      prevent_default_def add_listener_def set_timeout_def scroll_into_view_def)

lemma listeners_frame [simp, dom_simps]:
  "listeners (class_add e c s) = listeners s"
  "listeners (class_remove e c s) = listeners s"
  "listeners (set_attribute e a v s) = listeners s"
  "listeners (set_transform e t s) = listeners s"
  "listeners (focus e s) = listeners s"
  "listeners (console_log m s) = listeners s"
  "listeners (prevent_default s) = listeners s"
  "listeners (add_listener tg ty l s) = listeners s @ [(tg, ty, l)]"
  "listeners (set_timeout d cb s) = listeners s"
  "listeners (scroll_into_view e s) = listeners s"
  by (simp_all add: class_add_def class_remove_def set_attribute_def set_transform_def focus_def
      console_log_def prevent_default_def add_listener_def set_timeout_def scroll_into_view_def)

lemma query_all_in_frame [simp, dom_simps]:
  "query_all_in (set_attribute e a v s) r c = query_all_in s r c"
  "query_all_in (focus e s) r c = query_all_in s r c"
  "query_all_in (prevent_default s) r c = query_all_in s r c"
  "query_all_in (set_timeout d cb s) r c = query_all_in s r c"
  by (simp_all add: query_all_in_def)

lemma has_class_width [simp, dom_simps]:
  "has_class (s\<lparr>inner_width := w\<rparr>) x c = has_class s x c"
  by (simp add: has_class_def)

lemma query_all_in_class_frame [simp, dom_simps]:
  "c' \<noteq> c \<Longrightarrow> query_all_in (class_add e c' s) r c = query_all_in s r c"
  "c' \<noteq> c \<Longrightarrow> query_all_in (class_remove e c' s) r c = query_all_in s r c"
  by (simp_all add: query_all_in_def)

lemma query_in_frame [simp, dom_simps]:
  "c' \<noteq> c \<Longrightarrow> query_in (class_add e c' s) r c = query_in s r c"
  "c' \<noteq> c \<Longrightarrow> query_in (class_remove e c' s) r c = query_in s r c"
  "query_in (set_attribute e a v s) r c = query_in s r c"
  "query_in (focus e s) r c = query_in s r c"
  "query_in (prevent_default s) r c = query_in s r c"
  "query_in (set_timeout d cb s) r c = query_in s r c"
  by (simp_all add: query_in_def)

subsection \<open>The timer queue\<close>

text \<open>
  \<open>ins_timer\<close> keeps the queue sorted by due time, loses no timer, and puts the new
  timer after every timer due no later: its reference behaviour is
  \<open>takeWhile\<close>/\<open>dropWhile\<close> on the sorted queue.
\<close>

lemma mset_ins_timer [simp]: "mset (ins_timer t ts) = add_mset t (mset ts)"
  by (induction ts) auto

lemma set_ins_timer [simp]: "set (ins_timer t ts) = insert t (set ts)"
  by (induction ts) auto

lemma length_ins_timer [simp]: "length (ins_timer t ts) = Suc (length ts)"
  by (induction ts) auto

lemma list_all_ins_timer [simp]: "list_all P (ins_timer t ts) \<longleftrightarrow> P t \<and> list_all P ts"
  by (auto simp: list_all_iff)

lemma sorted_ins_timer:
  "sorted (map fst ts) \<Longrightarrow> sorted (map fst (ins_timer t ts))"
  by (induction ts) (auto simp: set_ins_timer)

lemma ins_timer_reference:
  "sorted (map fst ts) \<Longrightarrow>
   ins_timer t ts = takeWhile (\<lambda>u. fst u \<le> fst t) ts @ t # dropWhile (\<lambda>u. fst u \<le> fst t) ts"
  by (induction ts) auto


subsection \<open>Propagation paths\<close>

text \<open>In a tree whose elements are distinct, the path to a descendant of \<open>r\<close> passes through \<open>r\<close>.\<close>

lemma path_to_doc_order:
  "path_to e t = Some p \<Longrightarrow> e \<in> set (doc_order t)"
  "path_to_list e cs = Some p \<Longrightarrow> e \<in> set (concat (map doc_order cs))"
  by (induction e t and e cs arbitrary: p and p rule: path_to_path_to_list.induct)
     (auto split: if_splits option.splits)

lemma path_to_exists:
  "e \<in> set (doc_order t) \<Longrightarrow> path_to e t \<noteq> None"
  "e \<in> set (concat (map doc_order cs)) \<Longrightarrow> path_to_list e cs \<noteq> None"
  by (induction e t and e cs rule: path_to_path_to_list.induct) (auto split: option.splits)

lemma subtree_doc_order:
  "subtree r t = Some n \<Longrightarrow> set (doc_order n) \<subseteq> set (doc_order t)"
  "subtree_list r cs = Some n \<Longrightarrow> set (doc_order n) \<subseteq> set (concat (map doc_order cs))"
  by (induction r t and r cs arbitrary: n and n rule: subtree_subtree_list.induct)
     (auto split: if_splits option.splits)

lemma path_through_subtree:
  "subtree r t = Some n \<Longrightarrow> e \<in> set (doc_order n) \<Longrightarrow> distinct (doc_order t) \<Longrightarrow>
   \<exists>p. path_to e t = Some p \<and> r \<in> set p"
  "subtree_list r cs = Some n \<Longrightarrow> e \<in> set (doc_order n) \<Longrightarrow> distinct (concat (map doc_order cs)) \<Longrightarrow>
   \<exists>p. path_to_list e cs = Some p \<and> r \<in> set p"
proof (induction r t and r cs arbitrary: n and n rule: subtree_subtree_list.induct)
  case (1 r x cs)
  show ?case
  proof (cases "x = r")
    case True
    then show ?thesis using 1 path_to_exists(2) [of e cs] by (cases "path_to_list e cs") fastforce+
  next
    case False
    with 1 obtain p where "path_to_list e cs = Some p" "r \<in> set p" by auto
    moreover have "x \<noteq> e" using 1 False subtree_doc_order(2) [of r cs n] by auto
    ultimately show ?thesis by simp
  qed
next
  case (3 r c cs)
  show ?case
  proof (cases "subtree r c")
    case (Some n')
    with 3 obtain p where "path_to e c = Some p" "r \<in> set p" by auto
    then show ?thesis by simp
  next
    case None
    with 3 obtain p where p: "path_to_list e cs = Some p" "r \<in> set p" by auto
    have "e \<notin> set (doc_order c)" using 3 None subtree_doc_order(2) [of r cs n] by auto
    then have "path_to e c = None" using path_to_doc_order(1) [of e c] by (cases "path_to e c") auto
    with p show ?thesis by simp
  qed
qed simp

lemma descendant_on_path:
  assumes "e \<in> set (descendants t r)" and "distinct (doc_order t)"
  shows "\<exists>p. path_to e t = Some p \<and> r \<in> set p"
proof -
  obtain n where n: "subtree r t = Some n" and e: "e \<in> set (tl (doc_order n))"
    using assms(1) by (cases "subtree r t") (simp_all add: descendants_def)
  have "e \<in> set (doc_order n)" using e by (cases n) simp
  then show ?thesis using n assms(2) path_through_subtree(1) by blast
qed

end
