(* ===== verification/Closures.thy ===== *)
theory Closures
  imports Dom
begin

text \<open>
  The interface between the script's parts and the browser. \<open>app_refs\<close> is the
  state of a \<^verbatim>\<open>PortfolioApp\<close> object: the element references its constructor looks up
  once (\<^verbatim>\<open>src/app.js\<close> lines 5-12). \<open>listener\<close> names every closure the script
  passes to \<^verbatim>\<open>addEventListener\<close>, with the values it captures, and \<open>callback\<close> every
  closure it passes to \<^verbatim>\<open>setTimeout\<close>. The theory of each part says what its closures
  do; \<open>App\<close> dispatches on these constructors.
\<close>

record app_refs =
  hamburger :: "elem option"
  mobileMenu :: "elem option"
  body :: elem
  mobileMenuLinks :: "elem list"

datatype listener =
    HamburgerClick app_refs
  | LinkClick app_refs
  | MenuClick app_refs
  | WindowResize app_refs
  | EscapeKeydown app_refs
  | MenuKeydown app_refs
  | CardClick elem nat
  | CardKeydown elem nat
  | CardEnter elem
  | CardLeave elem
  | AnchorClick elem
  | PageLoad
  | ContentLoaded

datatype callback =
    FocusFirstItem app_refs
  | FocusHamburger app_refs
  | ResetCardTransform elem

text \<open>The event object a listener receives: \<^verbatim>\<open>e.target\<close>, \<^verbatim>\<open>e.key\<close>, \<^verbatim>\<open>e.shiftKey\<close>.\<close>

record event =
  ev_type :: event_type
  ev_target :: target
  ev_key :: string
  ev_shift :: bool

type_synonym state = "(listener, callback) dom"

subsection \<open>A concrete page\<close>

text \<open>
  A document shaped like the portfolio's markup, used to evaluate the theorems at a
  concrete input: the body (0) holds the hamburger button (1), the mobile menu (2)
  with three links (3, 4, 5) to \<^verbatim>\<open>#projects\<close>, \<^verbatim>\<open>#about\<close> and
  \<^verbatim>\<open>#contact\<close>, and the \<^verbatim>\<open>#projects\<close> section (10) with one project card (6),
  its title (7), description (8) and image (9).
\<close>

definition demo_tree :: node where
  "demo_tree = Node 0 [Node 1 [], Node 2 [Node 3 [], Node 4 [], Node 5 []],
                       Node 10 [Node 6 [Node 7 [], Node 8 [], Node 9 []]]]"

definition demo_classes :: "elem \<Rightarrow> string list" where
  "demo_classes e =
     (if e = 1 then [''hamburger''] else if e = 2 then [''mobile-menu'']
      else if e \<in> {3, 4, 5} then [''mobile-menu__link''] else if e = 6 then [''project-card'']
      else if e = 7 then [''project-card__title''] else if e = 8 then [''project-card__description'']
      else if e = 9 then [''project-card__image''] else [])"

definition demo_state :: state where
  "demo_state = \<lparr>tree = demo_tree, classes = demo_classes,
     attrs = (\<lambda>e a. if e = 1 \<and> a = ''aria-expanded'' then Some ''false''
                  else if e = 3 \<and> a = ''href'' then Some ''#projects''
                  else if e = 4 \<and> a = ''href'' then Some ''#about''
                  else if e = 5 \<and> a = ''href'' then Some ''#contact''
                  else if e = 10 \<and> a = ''id'' then Some ''projects'' else None),
     transform = (\<lambda>e. []), text_content = (\<lambda>e. if e = 7 then ''Portfolio'' else []),
     tag = (\<lambda>e. if e = 0 then ''body'' else if e = 1 then ''button'' else if e \<in> {3, 4, 5} then ''a''
                 else if e = 7 then ''h3'' else if e = 9 then ''img'' else if e = 10 then ''section''
                 else ''div''),
     active = 0, inner_width = 375, listeners = [], timers = [], now = 0, console = [],
     default_prevented = False, scrolled = [], hostname = ''localhost'', has_performance = True,
     navigation_start = 1200, load_event_end = 0\<rparr>"

definition demo_app :: app_refs where
  "demo_app = \<lparr>hamburger = Some 1, mobileMenu = Some 2, body = 0, mobileMenuLinks = [3, 4, 5]\<rparr>"

lemmas demo_defs = demo_tree_def demo_classes_def demo_state_def demo_app_def

end
