(* ===== verification/Menu.thy ===== *)
theory Menu
  imports Closures
begin

text \<open>
  The mobile-menu controller of \<^verbatim>\<open>PortfolioApp\<close> (\<^verbatim>\<open>src/app.js\<close> lines 20-126):
  \<^verbatim>\<open>openMobileMenu\<close>, \<^verbatim>\<open>closeMobileMenu\<close>, \<^verbatim>\<open>toggleMobileMenu\<close>,
  \<^verbatim>\<open>handleResize\<close>, the bodies of the click, Escape and focus-trap listeners, and the
  two focus callbacks the open and close operations schedule. Each is a statement on
  the browser state (\<open>state stmt\<close>): a \<^verbatim>\<open>null\<close> reference throws \<open>TypeError\<close> at
  the statement that uses it. The menu's state is not a variable of the script but the
  \<^verbatim>\<open>active\<close> class of the menu element; \<open>menu_state_of\<close> reads it as the
  specification's two-valued \<open>menu_state\<close>.
\<close>

definition openMobileMenu :: "app_refs \<Rightarrow> state stmt" where
  "openMobileMenu a = js_seq
     [on (hamburger a) (\<lambda>h. class_add h ''active''),
      on (hamburger a) (\<lambda>h. set_attribute h ''aria-expanded'' ''true''),
      on (mobileMenu a) (\<lambda>m. class_add m ''active''),
      stmt (class_add (body a) ''menu-open''),
      stmt (set_timeout 100 (FocusFirstItem a))]"

definition closeMobileMenu :: "app_refs \<Rightarrow> state stmt" where
  "closeMobileMenu a = js_seq
     [on (hamburger a) (\<lambda>h. class_remove h ''active''),
      on (hamburger a) (\<lambda>h. set_attribute h ''aria-expanded'' ''false''),
      on (mobileMenu a) (\<lambda>m. class_remove m ''active''),
      stmt (class_remove (body a) ''menu-open''),
      stmt (set_timeout 100 (FocusHamburger a))]"

definition toggleMobileMenu :: "app_refs \<Rightarrow> state stmt" where
  "toggleMobileMenu a = deref (mobileMenu a)
     (\<lambda>m s. if has_class s m ''active'' then closeMobileMenu a s else openMobileMenu a s)"

text \<open>\<^verbatim>\<open>&&\<close> short-circuits: the menu is only read on a wide window.\<close>

definition handleResize :: "app_refs \<Rightarrow> state stmt" where
  "handleResize a s =
     (if 768 \<le> inner_width s
      then deref (mobileMenu a)
             (\<lambda>m s. if has_class s m ''active'' then closeMobileMenu a s else Ok s) s
      else Ok s)"

subsection \<open>Listener bodies\<close>

definition hamburger_click :: "app_refs \<Rightarrow> event \<Rightarrow> state stmt" where
  "hamburger_click a ev = toggleMobileMenu a"

definition link_click :: "app_refs \<Rightarrow> event \<Rightarrow> state stmt" where
  "link_click a ev = closeMobileMenu a"

text \<open>\<^verbatim>\<open>e.target === this.mobileMenu\<close>: only a click on the scrim itself closes.\<close>

definition menu_click :: "app_refs \<Rightarrow> event \<Rightarrow> state stmt" where
  "menu_click a ev s =
     (if map_option El (mobileMenu a) = Some (ev_target ev) then closeMobileMenu a s else Ok s)"

definition window_resize :: "app_refs \<Rightarrow> event \<Rightarrow> state stmt" where
  "window_resize a ev = handleResize a"

definition escape_keydown :: "app_refs \<Rightarrow> event \<Rightarrow> state stmt" where
  "escape_keydown a ev s =
     (if ev_key ev = ''Escape''
      then deref (mobileMenu a)
             (\<lambda>m s. if has_class s m ''active'' then closeMobileMenu a s else Ok s) s
      else Ok s)"

text \<open>
  The focus trap (lines 103-125). \<^verbatim>\<open>focusableElements[0]\<close> and
  \<^verbatim>\<open>[length - 1]\<close> are \<^verbatim>\<open>undefined\<close> for an empty list, and
  \<^verbatim>\<open>document.activeElement\<close> is always an element, so the comparisons fail there.
\<close>

definition menu_keydown :: "app_refs \<Rightarrow> event \<Rightarrow> state stmt" where
  "menu_keydown a ev = deref (mobileMenu a) (\<lambda>m s.
     if \<not> has_class s m ''active'' then Ok s
     else
       (let fe = query_all_in s m ''mobile-menu__link'';
            firstF = js_index fe 0;
            lastF = js_index fe (int (length fe) - 1)
        in if ev_key ev = ''Tab'' then
             (if ev_shift ev then
                (if Some (active s) = firstF
                 then js_seq [stmt prevent_default, on lastF focus] s else Ok s)
              else
                (if Some (active s) = lastF
                 then js_seq [stmt prevent_default, on firstF focus] s else Ok s))
           else Ok s))"

subsection \<open>Timer callbacks\<close>

definition focus_first_item :: "app_refs \<Rightarrow> state stmt" where
  "focus_first_item a = deref (mobileMenu a) (\<lambda>m s.
     (case query_in s m ''mobile-menu__link'' of None \<Rightarrow> Ok s | Some f \<Rightarrow> Ok (focus f s)))"

definition focus_hamburger :: "app_refs \<Rightarrow> state stmt" where
  "focus_hamburger a = on (hamburger a) focus"

subsection \<open>The specification's menu state\<close>

datatype menu_state = Closed | Open

definition menu_state_of :: "app_refs \<Rightarrow> state \<Rightarrow> menu_state" where
  "menu_state_of a s =
     (case mobileMenu a of
        Some m \<Rightarrow> if has_class s m ''active'' then Open else Closed
      | None \<Rightarrow> Closed)"

text \<open>
  The transitions of the specification's MenuController (spec section 4.1), as an
  abstract machine: toggle flips, every closing event closes, a request that matches
  the current state changes nothing.
\<close>

datatype menu_input = Toggle | CloseReq | EscapeKey | ResizeTo int | KeyOther

fun spec_menu_step :: "menu_state \<Rightarrow> menu_input \<Rightarrow> menu_state" where
  "spec_menu_step Closed Toggle = Open"
| "spec_menu_step Open Toggle = Closed"
| "spec_menu_step st CloseReq = Closed"
| "spec_menu_step st EscapeKey = Closed"
| "spec_menu_step st (ResizeTo w) = (if 768 \<le> w then Closed else st)"
| "spec_menu_step st KeyOther = st"

text \<open>
  Consistency of the visual and accessibility state with the menu state: the
  hamburger's \<^verbatim>\<open>active\<close> class, its \<^verbatim>\<open>aria-expanded\<close> attribute, the menu's
  \<^verbatim>\<open>active\<close> class and the body's \<^verbatim>\<open>menu-open\<close> class all say the same.
\<close>

definition menu_consistent :: "app_refs \<Rightarrow> state \<Rightarrow> bool" where
  "menu_consistent a s \<longleftrightarrow>
     (case (hamburger a, mobileMenu a) of
        (Some h, Some m) \<Rightarrow>
          (has_class s h ''active'' \<longleftrightarrow> has_class s m ''active'') \<and>
          (attrs s h ''aria-expanded'' = Some ''true'' \<longleftrightarrow> has_class s m ''active'') \<and>
          (has_class s (body a) ''menu-open'' \<longleftrightarrow> has_class s m ''active'')
      | _ \<Rightarrow> True)"

text \<open>Every statement block of the controller that runs on an event or a timer.\<close>

definition menu_bodies :: "app_refs \<Rightarrow> event \<Rightarrow> state stmt list" where
  "menu_bodies a ev =
     [hamburger_click a ev, link_click a ev, menu_click a ev, window_resize a ev,
      escape_keydown a ev, menu_keydown a ev, focus_first_item a, focus_hamburger a]"

subsection \<open>Open and close in closed form\<close>

lemma openMobileMenu_Ok:
  assumes "hamburger a = Some h" and "mobileMenu a = Some m"
  shows "openMobileMenu a s =
    Ok (set_timeout 100 (FocusFirstItem a) (class_add (body a) ''menu-open''
         (class_add m ''active'' (set_attribute h ''aria-expanded'' ''true'' (class_add h ''active'' s)))))"
  using assms by (simp add: openMobileMenu_def)

lemma closeMobileMenu_Ok:
  assumes "hamburger a = Some h" and "mobileMenu a = Some m"
  shows "closeMobileMenu a s =
    Ok (set_timeout 100 (FocusHamburger a) (class_remove (body a) ''menu-open''
         (class_remove m ''active'' (set_attribute h ''aria-expanded'' ''false'' (class_remove h ''active'' s)))))"
  using assms by (simp add: closeMobileMenu_def)

lemmas menu_ops_Ok = openMobileMenu_Ok closeMobileMenu_Ok

text \<open>Opening and closing leave the menu consistent from any state, also when they throw.\<close>

lemma open_consistent [simp]: "menu_consistent a (final_state (openMobileMenu a s))"
  by (cases "hamburger a"; cases "mobileMenu a")
     (simp_all add: menu_consistent_def openMobileMenu_def)

lemma close_consistent [simp]: "menu_consistent a (final_state (closeMobileMenu a s))"
  by (cases "hamburger a"; cases "mobileMenu a")
     (simp_all add: menu_consistent_def closeMobileMenu_def)

lemma consistent_frame [simp]:
  "menu_consistent a (focus e s) = menu_consistent a s"
  "menu_consistent a (prevent_default s) = menu_consistent a s"
  by (simp_all add: menu_consistent_def split: option.splits)

lemma menu_state_open:
  "hamburger a = Some h \<Longrightarrow> mobileMenu a = Some m \<Longrightarrow>
   menu_state_of a (final_state (openMobileMenu a s)) = Open"
  by (simp add: openMobileMenu_Ok menu_state_of_def)

lemma menu_state_close:
  "hamburger a = Some h \<Longrightarrow> mobileMenu a = Some m \<Longrightarrow>
   menu_state_of a (final_state (closeMobileMenu a s)) = Closed"
  by (simp add: closeMobileMenu_Ok menu_state_of_def)

lemma toggle_cases:
  "mobileMenu a = Some m \<Longrightarrow>
   toggleMobileMenu a s = (if has_class s m ''active'' then closeMobileMenu a s else openMobileMenu a s)"
  by (simp add: toggleMobileMenu_def)

lemma toggle_step:
  assumes "hamburger a = Some h" and "mobileMenu a = Some m"
  shows "menu_state_of a (final_state (toggleMobileMenu a s)) = spec_menu_step (menu_state_of a s) Toggle"
  using assms by (simp add: toggle_cases menu_ops_Ok menu_state_of_def)

lemma close_when_active:
  "mobileMenu a = Some m \<Longrightarrow>
   deref (mobileMenu a) (\<lambda>m s. if has_class s m ''active'' then closeMobileMenu a s else Ok s) s =
   (if has_class s m ''active'' then closeMobileMenu a s else Ok s)"
  by simp

subsection \<open>Behaviour of the menu operations\<close>

text \<open>
  C1. Refinement: with both elements present, a toggle never throws and moves the menu
  state exactly as the specification's toggle transition does, leaving the visual and
  accessibility state consistent with it.
\<close>

theorem toggle_refines:
  assumes "hamburger a = Some h" and "mobileMenu a = Some m"
  shows "\<exists>s'. toggleMobileMenu a s = Ok s' \<and>
           menu_state_of a s' = spec_menu_step (menu_state_of a s) Toggle \<and>
           menu_consistent a s'"
proof -
  obtain s' where ok: "toggleMobileMenu a s = Ok s'"
    using assms by (cases "has_class s m ''active''") (simp_all add: toggle_cases menu_ops_Ok)
  have "menu_state_of a s' = spec_menu_step (menu_state_of a s) Toggle"
    using toggle_step [OF assms, of s] ok by simp
  moreover have "menu_consistent a s'"
    using ok assms open_consistent [of a s] close_consistent [of a s]
    by (cases "has_class s m ''active''") (simp_all add: toggle_cases)
  ultimately show ?thesis using ok by blast
qed

theorem toggle_refines_witness:
  "\<exists>s'. toggleMobileMenu demo_app demo_state = Ok s' \<and>
     menu_state_of demo_app s' = spec_menu_step (menu_state_of demo_app demo_state) Toggle \<and>
     menu_consistent demo_app s'"
  by (rule toggle_refines [of demo_app 1 2]) (simp_all add: demo_app_def)

text \<open>
  C2. Starting from a closed menu, after \<open>n\<close> toggles the menu is open exactly when
  \<open>n\<close> is odd (spec section 8, first property).
\<close>

theorem toggle_parity:
  assumes "hamburger a = Some h" and "mobileMenu a = Some m" and "menu_state_of a s = Closed"
  shows "menu_state_of a (((\<lambda>s. final_state (toggleMobileMenu a s)) ^^ n) s) =
         (if odd n then Open else Closed)"
proof (induction n)
  case 0
  then show ?case using assms(3) by simp
next
  case (Suc n)
  then show ?case
    by (cases "odd n") (simp_all add: toggle_step [OF assms(1,2)])
qed

theorem toggle_parity_witness:
  "menu_state_of demo_app (((\<lambda>s. final_state (toggleMobileMenu demo_app s)) ^^ 3) demo_state) = Open"
proof -
  have "menu_state_of demo_app demo_state = Closed"
    by (simp add: demo_defs menu_state_of_def has_class_def)
  then show ?thesis
    using toggle_parity [of demo_app 1 2 demo_state 3] by (simp add: demo_app_def)
qed

text \<open>
  C3. Opening (both elements present) marks the hamburger active and expanded for
  assistive technology, shows the menu, locks the body's scroll, and schedules the
  focus move to the first menu link 100 ms later.
\<close>

theorem open_effects:
  assumes "hamburger a = Some h" and "mobileMenu a = Some m"
  shows "\<exists>s'. openMobileMenu a s = Ok s' \<and>
           has_class s' h ''active'' \<and> attrs s' h ''aria-expanded'' = Some ''true'' \<and>
           has_class s' m ''active'' \<and> has_class s' (body a) ''menu-open'' \<and>
           (now s + 100, FocusFirstItem a) \<in> set (timers s')"
  by (simp add: openMobileMenu_Ok [OF assms])

theorem open_effects_witness:
  "\<exists>s'. openMobileMenu demo_app demo_state = Ok s' \<and>
     has_class s' 1 ''active'' \<and> attrs s' 1 ''aria-expanded'' = Some ''true'' \<and>
     has_class s' 2 ''active'' \<and> has_class s' (body demo_app) ''menu-open'' \<and>
     (now demo_state + 100, FocusFirstItem demo_app) \<in> set (timers s')"
  by (rule open_effects) (simp_all add: demo_app_def)

text \<open>
  C4. Closing (both elements present) reverses all of it: the hamburger is inactive and
  collapsed, the menu hidden, the body scrolls again, and focus returns to the
  hamburger 100 ms later.
\<close>

theorem close_effects:
  assumes "hamburger a = Some h" and "mobileMenu a = Some m"
  shows "\<exists>s'. closeMobileMenu a s = Ok s' \<and>
           \<not> has_class s' h ''active'' \<and> attrs s' h ''aria-expanded'' = Some ''false'' \<and>
           \<not> has_class s' m ''active'' \<and> \<not> has_class s' (body a) ''menu-open'' \<and>
           (now s + 100, FocusHamburger a) \<in> set (timers s')"
  by (simp add: closeMobileMenu_Ok [OF assms])

theorem close_effects_witness:
  "\<exists>s'. closeMobileMenu demo_app demo_state = Ok s' \<and>
     \<not> has_class s' 1 ''active'' \<and> attrs s' 1 ''aria-expanded'' = Some ''false'' \<and>
     \<not> has_class s' 2 ''active'' \<and> \<not> has_class s' (body demo_app) ''menu-open'' \<and>
     (now demo_state + 100, FocusHamburger demo_app) \<in> set (timers s')"
  by (rule close_effects) (simp_all add: demo_app_def)

text \<open>
  C5. Focus trap, forward: while the menu is open, Tab on the last menu link cancels the
  browser's default move and focuses the first link.
\<close>

theorem trap_tab_last:
  assumes "mobileMenu a = Some m" and "has_class s m ''active''"
    and "query_all_in s m ''mobile-menu__link'' = links" and "links \<noteq> []"
    and "active s = last links" and "ev_key ev = ''Tab''" and "\<not> ev_shift ev"
  shows "menu_keydown a ev s = Ok (focus (hd links) (prevent_default s))"
  using assms by (cases links) (simp_all add: menu_keydown_def Let_def)

text \<open>
  C6. Focus trap, backward: while the menu is open, Shift+Tab on the first menu link
  cancels the default move and focuses the last link.
\<close>

theorem trap_shift_tab_first:
  assumes "mobileMenu a = Some m" and "has_class s m ''active''"
    and "query_all_in s m ''mobile-menu__link'' = links" and "links \<noteq> []"
    and "active s = hd links" and "ev_key ev = ''Tab''" and "ev_shift ev"
  shows "menu_keydown a ev s = Ok (focus (last links) (prevent_default s))"
  using assms by (cases links) (simp_all add: menu_keydown_def Let_def)

lemma demo_links: "query_all_in demo_state 2 ''mobile-menu__link'' = [3, 4, 5]"
  by (simp add: query_all_in_def descendants_def demo_defs has_class_def)

lemma demo_open_state:
  "has_class (final_state (openMobileMenu demo_app demo_state)) 2 ''active''"
  by (simp add: openMobileMenu_Ok demo_app_def)

theorem trap_tab_last_witness:
  "menu_keydown demo_app \<lparr>ev_type = Keydown, ev_target = El 5, ev_key = ''Tab'', ev_shift = False\<rparr>
     (focus 5 (final_state (openMobileMenu demo_app demo_state))) =
   Ok (focus 3 (prevent_default (focus 5 (final_state (openMobileMenu demo_app demo_state)))))"
proof -
  let ?s = "focus 5 (final_state (openMobileMenu demo_app demo_state))"
  have "has_class ?s 2 ''active''" and "query_all_in ?s 2 ''mobile-menu__link'' = [3, 4, 5]"
    by (simp_all add: openMobileMenu_Ok demo_app_def demo_links)
  moreover have "mobileMenu demo_app = Some 2" by (simp add: demo_app_def)
  ultimately show ?thesis
    using trap_tab_last [of demo_app 2 ?s "[3, 4, 5]"] by simp
qed

theorem trap_shift_tab_first_witness:
  "menu_keydown demo_app \<lparr>ev_type = Keydown, ev_target = El 3, ev_key = ''Tab'', ev_shift = True\<rparr>
     (focus 3 (final_state (openMobileMenu demo_app demo_state))) =
   Ok (focus 5 (prevent_default (focus 3 (final_state (openMobileMenu demo_app demo_state)))))"
proof -
  let ?s = "focus 3 (final_state (openMobileMenu demo_app demo_state))"
  have "has_class ?s 2 ''active''" and "query_all_in ?s 2 ''mobile-menu__link'' = [3, 4, 5]"
    by (simp_all add: openMobileMenu_Ok demo_app_def demo_links)
  moreover have "mobileMenu demo_app = Some 2" by (simp add: demo_app_def)
  ultimately show ?thesis
    using trap_shift_tab_first [of demo_app 2 ?s "[3, 4, 5]"] by simp
qed

text \<open>
  C7. Away from the two ends of the link list, and whenever the menu is closed or the
  key is not Tab, the trap does nothing: the browser's own focus move applies.
\<close>

theorem trap_passes_through:
  assumes "mobileMenu a = Some m"
    and "query_all_in s m ''mobile-menu__link'' = links"
    and "\<not> has_class s m ''active'' \<or> ev_key ev \<noteq> ''Tab'' \<or>
         (ev_shift ev \<and> (links = [] \<or> active s \<noteq> hd links)) \<or>
         (\<not> ev_shift ev \<and> (links = [] \<or> active s \<noteq> last links))"
  shows "menu_keydown a ev s = Ok s"
  using assms by (cases links) (auto simp: menu_keydown_def Let_def)

theorem trap_passes_through_witness:
  "menu_keydown demo_app \<lparr>ev_type = Keydown, ev_target = El 3, ev_key = ''Tab'', ev_shift = False\<rparr>
     (focus 3 (final_state (openMobileMenu demo_app demo_state))) =
   Ok (focus 3 (final_state (openMobileMenu demo_app demo_state)))"
proof -
  let ?s = "focus 3 (final_state (openMobileMenu demo_app demo_state))"
  have "query_all_in ?s 2 ''mobile-menu__link'' = [3, 4, 5]"
    by (simp add: openMobileMenu_Ok demo_app_def demo_links)
  moreover have "mobileMenu demo_app = Some 2" by (simp add: demo_app_def)
  ultimately show ?thesis
    using trap_passes_through [of demo_app 2 ?s "[3, 4, 5]"] by simp
qed

text \<open>C8. Escape on a closed menu, and any other key, changes nothing.\<close>

theorem escape_closed_noop:
  assumes "mobileMenu a = Some m" and "\<not> has_class s m ''active'' \<or> ev_key ev \<noteq> ''Escape''"
  shows "escape_keydown a ev s = Ok s"
  using assms by (auto simp: escape_keydown_def)

theorem escape_closed_noop_witness:
  "escape_keydown demo_app \<lparr>ev_type = Keydown, ev_target = El 0, ev_key = ''Escape'', ev_shift = False\<rparr>
     demo_state = Ok demo_state"
  by (rule escape_closed_noop [of demo_app 2]) (simp_all add: demo_defs has_class_def)

text \<open>
  C9. Escape on an open menu (both elements present) closes it without throwing,
  leaves the state consistent and schedules the focus return to the hamburger.
\<close>

theorem escape_open_closes:
  assumes "hamburger a = Some h" and "mobileMenu a = Some m"
    and "has_class s m ''active''" and "ev_key ev = ''Escape''"
  shows "\<exists>s'. escape_keydown a ev s = Ok s' \<and> menu_state_of a s' = Closed \<and>
           menu_consistent a s' \<and> (now s + 100, FocusHamburger a) \<in> set (timers s')"
  using assms close_consistent [of a s]
  by (simp add: escape_keydown_def closeMobileMenu_Ok menu_state_of_def)

theorem escape_open_closes_witness:
  "\<exists>s'. escape_keydown demo_app \<lparr>ev_type = Keydown, ev_target = El 3, ev_key = ''Escape'', ev_shift = False\<rparr>
       (final_state (openMobileMenu demo_app demo_state)) = Ok s' \<and>
     menu_state_of demo_app s' = Closed \<and> menu_consistent demo_app s' \<and>
     (now (final_state (openMobileMenu demo_app demo_state)) + 100, FocusHamburger demo_app) \<in> set (timers s')"
  by (rule escape_open_closes [of demo_app 1 2]) (simp_all add: demo_app_def openMobileMenu_Ok)

text \<open>C10. A resize to a width of at least 768 px closes an open menu.\<close>

theorem resize_open_closes:
  assumes "hamburger a = Some h" and "mobileMenu a = Some m"
    and "has_class s m ''active''" and "768 \<le> inner_width s"
  shows "\<exists>s'. handleResize a s = Ok s' \<and> menu_state_of a s' = Closed \<and> menu_consistent a s'"
  using assms close_consistent [of a s]
  by (simp add: handleResize_def closeMobileMenu_Ok menu_state_of_def)

theorem resize_open_closes_witness:
  "\<exists>s'. handleResize demo_app ((final_state (openMobileMenu demo_app demo_state))\<lparr>inner_width := 1024\<rparr>) = Ok s' \<and>
     menu_state_of demo_app s' = Closed \<and> menu_consistent demo_app s'"
  by (rule resize_open_closes [of demo_app 1 2]) (simp_all add: demo_app_def openMobileMenu_Ok)

text \<open>
  C11. A resize changes nothing when the window stays narrower than 768 px (the menu is
  not even read then) or when the menu is closed.
\<close>

theorem resize_noop:
  assumes "inner_width s < 768 \<or> (mobileMenu a = Some m \<and> \<not> has_class s m ''active'')"
  shows "handleResize a s = Ok s"
  using assms by (auto simp: handleResize_def)

theorem resize_noop_witness:
  "handleResize \<lparr>hamburger = None, mobileMenu = None, body = 0, mobileMenuLinks = []\<rparr> demo_state = Ok demo_state"
  by (rule resize_noop [of demo_state]) (simp add: demo_state_def)

text \<open>
  C12. A click inside the menu closes it only when its target is the menu element itself
  (the scrim); a click that reaches the menu from a child leaves the state alone.
\<close>

theorem scrim_click:
  assumes "hamburger a = Some h" and "mobileMenu a = Some m"
  shows "\<not> threw (menu_click a ev s) \<and>
         menu_state_of a (final_state (menu_click a ev s)) =
           (if ev_target ev = El m then Closed else menu_state_of a s)"
  using assms by (simp add: menu_click_def closeMobileMenu_Ok menu_state_of_def)

theorem scrim_click_witness:
  "\<not> threw (menu_click demo_app \<lparr>ev_type = Click, ev_target = El 2, ev_key = [], ev_shift = False\<rparr> demo_state) \<and>
   menu_state_of demo_app (final_state (menu_click demo_app \<lparr>ev_type = Click, ev_target = El 2, ev_key = [], ev_shift = False\<rparr> demo_state)) =
     (if El 2 = El 2 then Closed else menu_state_of demo_app demo_state)"
  using scrim_click [of demo_app 1 2 "\<lparr>ev_type = Click, ev_target = El 2, ev_key = [], ev_shift = False\<rparr>" demo_state]
  by (simp add: demo_app_def)

lemma keydown_consistent:
  "menu_consistent a s \<Longrightarrow> menu_consistent a (final_state (menu_keydown a ev s))"
  by (cases "mobileMenu a")
     (auto simp: menu_keydown_def Let_def js_index_def split: option.splits)

lemma focus_callbacks_consistent:
  "menu_consistent a s \<Longrightarrow> menu_consistent a (final_state (focus_first_item a s))"
  "menu_consistent a s \<Longrightarrow> menu_consistent a (final_state (focus_hamburger a s))"
  by (cases "mobileMenu a"; auto simp: focus_first_item_def split: option.splits)
     (cases "hamburger a"; simp add: focus_hamburger_def)

lemma close_if_active_consistent:
  "menu_consistent a s \<Longrightarrow>
   menu_consistent a (final_state (deref (mobileMenu a)
     (\<lambda>m s. if has_class s m ''active'' then closeMobileMenu a s else Ok s) s))"
  by (cases "mobileMenu a") simp_all

lemma menu_body_consistent:
  assumes "menu_consistent a s" and "b \<in> set (menu_bodies a ev)"
  shows "menu_consistent a (final_state (b s))"
proof -
  have "menu_consistent a (final_state (toggleMobileMenu a s))"
    using assms(1) by (cases "mobileMenu a") (simp_all add: toggleMobileMenu_def)
  moreover have "menu_consistent a (final_state (menu_click a ev s))"
    using assms(1) by (simp add: menu_click_def)
  moreover have "menu_consistent a (final_state (handleResize a s))"
    using assms(1) close_if_active_consistent [of a s] by (simp add: handleResize_def)
  moreover have "menu_consistent a (final_state (escape_keydown a ev s))"
    using assms(1) close_if_active_consistent [of a s] by (simp add: escape_keydown_def)
  ultimately show ?thesis
    using assms keydown_consistent [OF assms(1)] focus_callbacks_consistent [OF assms(1)]
    by (auto simp: menu_bodies_def hamburger_click_def link_click_def window_resize_def)
qed

text \<open>
  C13. Invariant: every block the controller runs on an event or a timer keeps the
  hamburger's class and \<^verbatim>\<open>aria-expanded\<close>, the menu's class and the body's class in
  agreement, whether the block returns or throws.
\<close>

theorem menu_bodies_consistent:
  assumes "menu_consistent a s"
  shows "list_all (\<lambda>b. menu_consistent a (final_state (b s))) (menu_bodies a ev)"
  using menu_body_consistent [OF assms] by (simp add: list_all_iff)

theorem menu_bodies_consistent_witness:
  "list_all (\<lambda>b. menu_consistent demo_app (final_state (b demo_state)))
     (menu_bodies demo_app \<lparr>ev_type = Keydown, ev_target = El 0, ev_key = ''Escape'', ev_shift = False\<rparr>)"
  by (rule menu_bodies_consistent)
     (simp add: menu_consistent_def demo_defs has_class_def)

text \<open>
  C14. With the hamburger present but no \<^verbatim>\<open>.mobile-menu\<close> element, closing (a menu
  link click) throws a \<open>TypeError\<close> at \<^verbatim>\<open>this.mobileMenu.classList\<close> after it has
  already marked the hamburger inactive and collapsed: the body keeps
  \<^verbatim>\<open>menu-open\<close> and no focus return is scheduled. The operation is not skipped.
\<close>

theorem close_without_menu_partial:
  assumes "hamburger a = Some h" and "mobileMenu a = None"
  shows "closeMobileMenu a s =
         Thrown TypeError (set_attribute h ''aria-expanded'' ''false'' (class_remove h ''active'' s))"
  using assms by (simp add: closeMobileMenu_def)

theorem close_without_menu_partial_witness:
  "closeMobileMenu \<lparr>hamburger = Some 1, mobileMenu = None, body = 0, mobileMenuLinks = [3]\<rparr> demo_state =
   Thrown TypeError (set_attribute 1 ''aria-expanded'' ''false'' (class_remove 1 ''active'' demo_state))"
  by (rule close_without_menu_partial) simp_all

text \<open>
  C15. Without a hamburger, opening and closing throw a \<open>TypeError\<close> at their first
  statement, before any effect: a menu link click reports an uncaught error instead of
  being skipped.
\<close>

theorem no_hamburger_throws:
  assumes "hamburger a = None"
  shows "openMobileMenu a s = Thrown TypeError s \<and> closeMobileMenu a s = Thrown TypeError s"
  using assms by (simp add: openMobileMenu_def closeMobileMenu_def)

theorem no_hamburger_throws_witness:
  "openMobileMenu \<lparr>hamburger = None, mobileMenu = Some 2, body = 0, mobileMenuLinks = [3]\<rparr> demo_state =
     Thrown TypeError demo_state \<and>
   closeMobileMenu \<lparr>hamburger = None, mobileMenu = Some 2, body = 0, mobileMenuLinks = [3]\<rparr> demo_state =
     Thrown TypeError demo_state"
  by (rule no_hamburger_throws) simp

end
