(* ===== verification/Cards.thy ===== *)
theory Cards
  imports Closures
begin

text \<open>
  Project-card interactivity of \<^verbatim>\<open>PortfolioApp\<close> (\<^verbatim>\<open>src/app.js\<close> lines 128-197):
  \<^verbatim>\<open>addProjectCardInteractivity\<close> makes every \<^verbatim>\<open>.project-card\<close> keyboard-accessible and
  registers four listeners on it; \<^verbatim>\<open>handleProjectCardClick\<close> plays a 150 ms press
  animation and logs the title; \<^verbatim>\<open>enhanceCardHover\<close> scales the card's image. The
  \<^verbatim>\<open>textContent\<close> reads of \<^verbatim>\<open>querySelector\<close> results throw a \<open>TypeError\<close> when the
  sub-element is missing.
\<close>

text \<open>The body of the \<^verbatim>\<open>forEach\<close> loop of lines 131-157, for one card and its index.\<close>

definition card_setup :: "elem \<times> nat \<Rightarrow> state stmt" where
  "card_setup ci = (case ci of (c, index) \<Rightarrow> js_seq
     [stmt (set_attribute c ''tabindex'' ''0''),
      stmt (set_attribute c ''role'' ''button''),
      (\<lambda>s. deref (query_in s c ''project-card__title'')
             (\<lambda>t s. Ok (set_attribute c ''aria-label'' (''View project: '' @ text_content s t) s)) s),
      stmt (add_listener (El c) Click (CardClick c index)),
      stmt (add_listener (El c) Keydown (CardKeydown c index)),
      stmt (add_listener (El c) MouseEnter (CardEnter c)),
      stmt (add_listener (El c) MouseLeave (CardLeave c))])"

definition addProjectCardInteractivity :: "state stmt" where
  "addProjectCardInteractivity s =
     (let projectCards = query_all s ''project-card''
      in js_for_each card_setup (zip projectCards [0..<length projectCards]) s)"

text \<open>
  Lines 160-179. The description is looked up (and may throw) although nothing uses
  it; the timer callback \<open>ResetCardTransform\<close> clears the transform.
\<close>

definition handleProjectCardClick :: "elem \<Rightarrow> nat \<Rightarrow> state stmt" where
  "handleProjectCardClick c index s =
     deref (query_in s c ''project-card__title'') (\<lambda>t s.
       deref (query_in s c ''project-card__description'') (\<lambda>d s.
         Ok (console_log (Log (''Project clicked: '' @ text_content s t))
              (set_timeout 150 (ResetCardTransform c)
                (set_transform c ''scale(0.98)'' s)))) s) s"

definition reset_card_transform :: "elem \<Rightarrow> state stmt" where
  "reset_card_transform c = stmt (set_transform c [])"

definition enhanceCardHover :: "elem \<Rightarrow> bool \<Rightarrow> state stmt" where
  "enhanceCardHover c isHovering s =
     (case query_in s c ''project-card__image'' of
        None \<Rightarrow> Ok s
      | Some img \<Rightarrow> Ok (set_transform img (if isHovering then ''scale(1.02)'' else ''scale(1)'') s))"

definition showProjectModal :: "string \<Rightarrow> string \<Rightarrow> state stmt" where
  "showProjectModal title description = stmt (console_log (Log (''Opening modal for: '' @ title)))"

subsection \<open>Listener bodies\<close>

definition card_click :: "elem \<Rightarrow> nat \<Rightarrow> event \<Rightarrow> state stmt" where
  "card_click c index ev = handleProjectCardClick c index"

definition card_keydown :: "elem \<Rightarrow> nat \<Rightarrow> event \<Rightarrow> state stmt" where
  "card_keydown c index ev s =
     (if ev_key ev = ''Enter'' \<or> ev_key ev = '' ''
      then js_seq [stmt prevent_default, handleProjectCardClick c index] s
      else Ok s)"

definition card_enter :: "elem \<Rightarrow> event \<Rightarrow> state stmt" where
  "card_enter c ev = enhanceCardHover c True"

definition card_leave :: "elem \<Rightarrow> event \<Rightarrow> state stmt" where
  "card_leave c ev = enhanceCardHover c False"

subsection \<open>Behaviour of the card operations\<close>

lemma handleProjectCardClick_Ok:
  assumes "query_in s c ''project-card__title'' = Some t"
    and "query_in s c ''project-card__description'' = Some d"
  shows "handleProjectCardClick c i s =
    Ok (console_log (Log (''Project clicked: '' @ text_content s t))
         (set_timeout 150 (ResetCardTransform c) (set_transform c ''scale(0.98)'' s)))"
  using assms by (simp add: handleProjectCardClick_def)

text \<open>
  C17. A click on a card with a title and a description presses it (transform
  \<^verbatim>\<open>scale(0.98)\<close>), schedules the release 150 ms later and logs the title; the
  release clears the transform again.
\<close>

theorem card_click_press_release:
  assumes "query_in s c ''project-card__title'' = Some t"
    and "query_in s c ''project-card__description'' = Some d"
  shows "\<exists>s'. card_click c i ev s = Ok s' \<and> transform s' c = ''scale(0.98)'' \<and>
           (now s + 150, ResetCardTransform c) \<in> set (timers s') \<and>
           console s' = console s @ [Log (''Project clicked: '' @ text_content s t)] \<and>
           reset_card_transform c s' = Ok (s'\<lparr>transform := (transform s')(c := [])\<rparr>)"
  using assms
  by (simp add: card_click_def handleProjectCardClick_Ok reset_card_transform_def
      set_transform_def set_timeout_def console_log_def)

lemma handleProjectCardClick_prevented:
  "default_prevented (final_state (handleProjectCardClick c i s)) = default_prevented s"
  by (cases "query_in s c ''project-card__title''"; cases "query_in s c ''project-card__description''")
     (simp_all add: handleProjectCardClick_def set_timeout_def set_transform_def console_log_def)

lemma demo_card_parts:
  "query_in demo_state 6 ''project-card__title'' = Some 7"
  "query_in demo_state 6 ''project-card__description'' = Some 8"
  "query_in demo_state 6 ''project-card__image'' = Some 9"
  by (simp_all add: query_in_def descendants_def demo_defs has_class_def)

theorem card_click_press_release_witness:
  "\<exists>s'. card_click 6 0 \<lparr>ev_type = Click, ev_target = El 6, ev_key = [], ev_shift = False\<rparr> demo_state = Ok s' \<and>
     transform s' 6 = ''scale(0.98)'' \<and> (now demo_state + 150, ResetCardTransform 6) \<in> set (timers s') \<and>
     console s' = console demo_state @ [Log (''Project clicked: '' @ text_content demo_state 7)] \<and>
     reset_card_transform 6 s' = Ok (s'\<lparr>transform := (transform s')(6 := [])\<rparr>)"
  by (rule card_click_press_release) (simp_all add: demo_card_parts)

text \<open>
  C18. A card that has a title but no description element cannot be clicked: the
  unused description lookup throws a \<open>TypeError\<close> before the animation and the log.
\<close>

theorem card_click_no_description:
  assumes "query_in s c ''project-card__title'' = Some t"
    and "query_in s c ''project-card__description'' = None"
  shows "card_click c i ev s = Thrown TypeError s"
  using assms by (simp add: card_click_def handleProjectCardClick_def)

theorem card_click_no_description_witness:
  "card_click 6 0 \<lparr>ev_type = Click, ev_target = El 6, ev_key = [], ev_shift = False\<rparr>
     (demo_state\<lparr>classes := (classes demo_state)(8 := [])\<rparr>) =
   Thrown TypeError (demo_state\<lparr>classes := (classes demo_state)(8 := [])\<rparr>)"
  by (rule card_click_no_description [where t = 7])
     (simp_all add: query_in_def descendants_def demo_defs has_class_def)

text \<open>
  C19. Enter or Space on a card first cancels the key's default action and then runs the
  click handler: the outcome is exactly the click on the cancelled state, and the default
  action stays cancelled also when the handler throws (a card without a description).
\<close>

theorem card_keydown_activates:
  assumes "ev_key ev = ''Enter'' \<or> ev_key ev = '' ''"
  shows "card_keydown c i ev s = card_click c i ev (prevent_default s) \<and>
         default_prevented (final_state (card_keydown c i ev s))"
  using assms handleProjectCardClick_prevented [of c i "prevent_default s"]
  by (auto simp: card_keydown_def card_click_def)

theorem card_keydown_activates_witness:
  "card_keydown 6 0 \<lparr>ev_type = Keydown, ev_target = El 6, ev_key = ''Enter'', ev_shift = False\<rparr>
     (demo_state\<lparr>classes := (classes demo_state)(8 := [])\<rparr>) =
   card_click 6 0 \<lparr>ev_type = Keydown, ev_target = El 6, ev_key = ''Enter'', ev_shift = False\<rparr>
     (prevent_default (demo_state\<lparr>classes := (classes demo_state)(8 := [])\<rparr>)) \<and>
   default_prevented (final_state (card_keydown 6 0
     \<lparr>ev_type = Keydown, ev_target = El 6, ev_key = ''Enter'', ev_shift = False\<rparr>
     (demo_state\<lparr>classes := (classes demo_state)(8 := [])\<rparr>)))"
  by (rule card_keydown_activates) simp

text \<open>
  C20. Setting up a card without a title element throws a \<open>TypeError\<close> after its
  \<^verbatim>\<open>tabindex\<close> and \<^verbatim>\<open>role\<close> are set and before any of its listeners is registered;
  the loop stops there, so later cards are not set up either.
\<close>

theorem card_setup_no_title:
  assumes "query_in s c ''project-card__title'' = None"
  shows "js_for_each card_setup ((c, i) # rest) s =
           Thrown TypeError (set_attribute c ''role'' ''button'' (set_attribute c ''tabindex'' ''0'' s))"
  using assms by (simp add: card_setup_def)

theorem card_setup_no_title_witness:
  "js_for_each card_setup [(6, 0), (11, 1)] (demo_state\<lparr>classes := (classes demo_state)(7 := [])\<rparr>) =
   Thrown TypeError (set_attribute 6 ''role'' ''button'' (set_attribute 6 ''tabindex'' ''0''
     (demo_state\<lparr>classes := (classes demo_state)(7 := [])\<rparr>)))"
  by (rule card_setup_no_title)
     (simp add: query_in_def descendants_def demo_defs has_class_def)

end
