(* ===== verification/SmoothScroll.thy ===== *)
theory SmoothScroll
  imports Closures
begin

text \<open>
  \<^verbatim>\<open>SmoothScroll\<close> (\<^verbatim>\<open>src/app.js\<close> lines 201-233): every \<^verbatim>\<open>a[href^="#"]\<close>
  gets a click listener. The bare \<^verbatim>\<open>#\<close> and the reserved \<^verbatim>\<open>#about\<close> and
  \<^verbatim>\<open>#contact\<close> cancel navigation and log; any other fragment is passed to
  \<^verbatim>\<open>document.querySelector\<close> as a CSS selector, and an element found is scrolled to
  smoothly with navigation cancelled. The selector is parsed as CSS Syntax does for an
  ID selector, on code points after input preprocessing: \<^verbatim>\<open>#\<close> followed by an ident
  sequence, escapes (\<^verbatim>\<open>\32 \<close>, \<^verbatim>\<open>\-\<close>) decoded. A fragment that does not start
  an ident sequence (\<^verbatim>\<open>#1-intro\<close>, \<^verbatim>\<open>#-2\<close>) makes \<^verbatim>\<open>querySelector\<close> throw a
  \<open>SyntaxError\<close>, returned here as \<open>Inl SyntaxError\<close>.
\<close>

text \<open>
  Code points of CSS Syntax (sections 4.2, 4.3.7-4.3.11). The script's strings are
  Isabelle \<open>char\<close> lists; the selector parser works on their code points
  (\<open>of_char\<close>), where an escape can denote any code point up to \<open>0x10FFFF\<close>.
\<close>

definition ident_start_cp :: "nat \<Rightarrow> bool" where
  "ident_start_cp n \<longleftrightarrow> (65 \<le> n \<and> n \<le> 90) \<or> (97 \<le> n \<and> n \<le> 122) \<or> n = 95 \<or> 128 \<le> n"

definition ident_cp :: "nat \<Rightarrow> bool" where
  "ident_cp n \<longleftrightarrow> ident_start_cp n \<or> (48 \<le> n \<and> n \<le> 57) \<or> n = 45"

definition hex_digit_cp :: "nat \<Rightarrow> bool" where
  "hex_digit_cp n \<longleftrightarrow> (48 \<le> n \<and> n \<le> 57) \<or> (65 \<le> n \<and> n \<le> 70) \<or> (97 \<le> n \<and> n \<le> 102)"

definition hex_value :: "nat \<Rightarrow> nat" where
  "hex_value n = (if n \<le> 57 then n - 48 else if n \<le> 70 then n - 55 else n - 87)"

definition hex_number :: "nat list \<Rightarrow> nat" where
  "hex_number ds = foldl (\<lambda>v d. 16 * v + hex_value d) 0 ds"

definition whitespace_cp :: "nat \<Rightarrow> bool" where
  "whitespace_cp n \<longleftrightarrow> n = 10 \<or> n = 9 \<or> n = 32"

text \<open>Input preprocessing (3.3): CR LF, CR and FF become LF, NUL becomes U+FFFD.\<close>

definition preprocess_cp :: "nat \<Rightarrow> nat" where
  "preprocess_cp n = (if n = 13 \<or> n = 12 then 10 else if n = 0 then 0xFFFD else n)"

fun preprocess :: "nat list \<Rightarrow> nat list" where
  "preprocess [] = []"
| "preprocess [c] = [preprocess_cp c]"
| "preprocess (c # d # cs) =
     (if c = 13 \<and> d = 10 then 10 # preprocess cs else preprocess_cp c # preprocess (d # cs))"

text \<open>4.3.8: a backslash not followed by a newline.\<close>

definition valid_escape :: "nat list \<Rightarrow> bool" where
  "valid_escape cs = (case cs of a # b # _ \<Rightarrow> a = 92 \<and> b \<noteq> 10 | _ \<Rightarrow> False)"

text \<open>4.3.9: whether the next three code points would start an ident sequence.\<close>

definition would_start_ident :: "nat list \<Rightarrow> bool" where
  "would_start_ident cs =
     (case cs of
        [] \<Rightarrow> False
      | a # rest \<Rightarrow>
          (if a = 45 then (case rest of [] \<Rightarrow> False | b # _ \<Rightarrow> ident_start_cp b \<or> b = 45 \<or> valid_escape rest)
           else ident_start_cp a \<or> valid_escape cs))"

text \<open>
  4.3.7, after the backslash: up to six hex digits and one following whitespace, with
  zero, a surrogate or a value past \<open>0x10FFFF\<close> replaced by U+FFFD; any other code point
  stands for itself.
\<close>

definition consume_escape :: "nat list \<Rightarrow> nat \<times> nat list" where
  "consume_escape cs =
     (case cs of
        [] \<Rightarrow> (0xFFFD, [])
      | c # rest \<Rightarrow>
          (if hex_digit_cp c then
             (let hs = takeWhile hex_digit_cp (take 5 rest);
                  ds = c # hs;
                  r1 = drop (length hs) rest;
                  r2 = (case r1 of w # r \<Rightarrow> if whitespace_cp w then r else r1 | [] \<Rightarrow> []);
                  v = hex_number ds
              in (if v = 0 \<or> (0xD800 \<le> v \<and> v \<le> 0xDFFF) \<or> 0x10FFFF < v then 0xFFFD else v, r2))
           else (c, rest)))"

text \<open>4.3.11: consume an ident sequence; returns its value and the rest of the input.\<close>

function consume_ident :: "nat list \<Rightarrow> nat list \<times> nat list" where
  "consume_ident [] = ([], [])"
| "consume_ident (c # rest) =
     (if ident_cp c then (case consume_ident rest of (n, r) \<Rightarrow> (c # n, r))
      else if valid_escape (c # rest) then
        (case consume_escape rest of (v, r1) \<Rightarrow> (case consume_ident r1 of (n, r) \<Rightarrow> (v # n, r)))
      else ([], c # rest))"
  by pat_completeness auto
termination
proof (relation "measure length")
  have rest: "length (case drop k xs of w # r \<Rightarrow> if whitespace_cp w then r else drop k xs | [] \<Rightarrow> []) \<le> length xs"
    for k and xs :: "nat list"
    by (cases "drop k xs") (auto dest: arg_cong [of _ _ length])
  have esc: "length (snd (consume_escape cs)) \<le> length cs" for cs
  proof (cases cs)
    case (Cons c rest')
    then show ?thesis
      using rest [of "length (takeWhile hex_digit_cp (take 5 rest'))" rest'] by (simp add: consume_escape_def Let_def)
  qed (simp add: consume_escape_def)
  show "wf (measure length)" by simp
  fix c rest v r1
  assume "(v, r1) = consume_escape rest"
  then show "(r1, c # rest) \<in> measure length"
    using esc [of rest] by (metis in_measure le_imp_less_Suc length_Cons snd_conv)
qed simp

text \<open>
  \<^verbatim>\<open>document.querySelector(sel)\<close> for a selector that is one ID selector: a hash
  token of type "id" (4.3.1), optionally followed by whitespace. Its value is compared
  with the \<^verbatim>\<open>id\<close> attributes in document order. Any other selector text is treated as
  a syntax error.
\<close>

definition query_id_selector :: "state \<Rightarrow> string \<Rightarrow> js_error + elem option" where
  "query_id_selector s sel =
     (let cps = preprocess (map of_char sel) in
      if cps \<noteq> [] \<and> hd cps = 35 \<and> would_start_ident (tl cps) then
        (case consume_ident (tl cps) of (name, r) \<Rightarrow>
           if list_all whitespace_cp r
           then Inr (find (\<lambda>e. map_option (map of_char) (attrs s e ''id'') = Some name) (doc_order (tree s)))
           else Inl SyntaxError)
      else Inl SyntaxError)"

text \<open>
  Plain identifiers: a fragment made of letters, digits, \<open>-\<close>, \<open>_\<close> and non-ASCII
  characters that starts an identifier without an escape. For these the selector's value
  is the fragment itself.
\<close>

definition is_name_start :: "char \<Rightarrow> bool" where
  "is_name_start ch \<longleftrightarrow> ident_start_cp (of_char ch)"

definition is_name_char :: "char \<Rightarrow> bool" where
  "is_name_char ch \<longleftrightarrow> ident_cp (of_char ch)"

definition starts_ident :: "string \<Rightarrow> bool" where
  "starts_ident cs =
     (case cs of
        [] \<Rightarrow> False
      | c # rest \<Rightarrow>
          (if c = CHR ''-'' then (case rest of [] \<Rightarrow> False | d # _ \<Rightarrow> is_name_start d \<or> d = CHR ''-'')
           else is_name_start c))"

definition is_fragment_anchor :: "state \<Rightarrow> elem \<Rightarrow> bool" where
  "is_fragment_anchor s e \<longleftrightarrow>
     tag s e = ''a'' \<and> (case attrs s e ''href'' of Some h \<Rightarrow> take 1 h = ''#'' | None \<Rightarrow> False)"

definition new_SmoothScroll :: "state stmt" where
  "new_SmoothScroll s =
     js_for_each (\<lambda>x. stmt (add_listener (El x) Click (AnchorClick x)))
       (filter (is_fragment_anchor s) (doc_order (tree s))) s"

definition reserved_fragment :: "string \<Rightarrow> bool" where
  "reserved_fragment h \<longleftrightarrow> h = ''#'' \<or> h = ''#about'' \<or> h = ''#contact''"

text \<open>
  The listener (lines 211-230). \<^verbatim>\<open>getAttribute\<close> gives \<^verbatim>\<open>null\<close> once the attribute
  is gone; \<^verbatim>\<open>querySelector(null)\<close> then looks for \<^verbatim>\<open><null>\<close> elements.
\<close>

definition anchor_click :: "elem \<Rightarrow> event \<Rightarrow> state stmt" where
  "anchor_click x ev s =
     (case attrs s x ''href'' of
        None \<Rightarrow>
          (case find (\<lambda>e. tag s e = ''null'') (doc_order (tree s)) of
             None \<Rightarrow> Ok s
           | Some t \<Rightarrow> Ok (scroll_into_view t (prevent_default s)))
      | Some h \<Rightarrow>
          (if reserved_fragment h
           then Ok (console_log (Log (''Navigation to '' @ h @ '' - This would navigate to the '' @
                    drop 1 h @ '' page in a full implementation'')) (prevent_default s))
           else
             (case query_id_selector s h of
                Inl e \<Rightarrow> Thrown e s
              | Inr None \<Rightarrow> Ok s
              | Inr (Some t) \<Rightarrow> Ok (scroll_into_view t (prevent_default s)))))"

subsection \<open>Behaviour of the anchor listener\<close>

lemma preprocess_plain:
  "list_all (\<lambda>n. n \<noteq> 0 \<and> n \<noteq> 12 \<and> n \<noteq> 13) cs \<Longrightarrow> preprocess cs = cs"
  by (induction cs rule: preprocess.induct) (auto simp: preprocess_cp_def)

lemma preprocess_hash: "preprocess (35 # cs) = 35 # preprocess cs"
  by (cases cs) (simp_all add: preprocess_cp_def)

lemma consume_ident_plain: "list_all ident_cp cs \<Longrightarrow> consume_ident cs = (cs, [])"
  by (induction cs) simp_all

lemma map_of_char_eq [simp]: "map (of_char :: char \<Rightarrow> nat) xs = map of_char ys \<longleftrightarrow> xs = ys"
  by (rule inj_map_eq_map) (rule inj_of_char)

lemma of_char_hyphen: "(of_char c = (45 :: nat)) \<longleftrightarrow> c = CHR ''-''"
proof -
  have "of_char (CHR ''-'') = (45 :: nat)" by simp
  then show ?thesis by (metis of_char_eq_iff)
qed

lemma plain_would_start_ident:
  "starts_ident name \<Longrightarrow> would_start_ident (map of_char name)"
  by (cases name; cases "tl name")
     (auto simp: starts_ident_def would_start_ident_def is_name_start_def ident_start_cp_def of_char_hyphen)

lemma query_id_selector_ident:
  assumes "starts_ident name" and "list_all is_name_char name"
  shows "query_id_selector s (CHR ''#'' # name) = Inr (find (\<lambda>e. attrs s e ''id'' = Some name) (doc_order (tree s)))"
proof -
  have cp: "list_all ident_cp (map of_char name)"
    using assms(2) by (simp add: list_all_iff is_name_char_def)
  then have "preprocess (map of_char name) = map of_char name"
    by (intro preprocess_plain) (auto simp: list_all_iff ident_cp_def ident_start_cp_def)
  moreover have "map_option (map (of_char :: char \<Rightarrow> nat)) v = Some (map of_char name) \<longleftrightarrow> v = Some name" for v
    by (cases v) simp_all
  ultimately show ?thesis
    using assms(1) cp by (simp add: query_id_selector_def preprocess_hash plain_would_start_ident consume_ident_plain)
qed


lemmas selector_defs = query_id_selector_def preprocess_cp_def would_start_ident_def valid_escape_def
  ident_start_cp_def ident_cp_def consume_escape_def hex_digit_cp_def hex_number_def hex_value_def
  whitespace_cp_def Let_def

text \<open>
  An identifier that starts with a digit is reachable through an escape: the fragment
  \<^verbatim>\<open>#\32 024-work\<close> selects the element with id \<^verbatim>\<open>2024-work\<close>.
\<close>

lemma escaped_digit_selector:
  "query_id_selector (demo_state\<lparr>attrs := (attrs demo_state)(10 := (attrs demo_state 10)(''id'' \<mapsto> ''2024-work''))\<rparr>)
     (''#'' @ [CHR 0x5C] @ ''32 024-work'') = Inr (Some 10)"
  by (simp add: selector_defs demo_defs)

lemma reserved_fragment_cases [simp]:
  "reserved_fragment (CHR ''#'' # name) \<longleftrightarrow> name = [] \<or> name = ''about'' \<or> name = ''contact''"
  by (auto simp: reserved_fragment_def)

text \<open>
  C21. A click on the bare \<^verbatim>\<open>#\<close> or on \<^verbatim>\<open>#about\<close> or \<^verbatim>\<open>#contact\<close> cancels
  navigation and logs a message; nothing is scrolled.
\<close>

theorem anchor_reserved:
  assumes "attrs s x ''href'' = Some h" and "reserved_fragment h"
  shows "anchor_click x ev s =
    Ok (console_log (Log (''Navigation to '' @ h @ '' - This would navigate to the '' @ drop 1 h @
         '' page in a full implementation'')) (prevent_default s))"
  using assms by (simp add: anchor_click_def)

theorem anchor_reserved_witness:
  "anchor_click 4 \<lparr>ev_type = Click, ev_target = El 4, ev_key = [], ev_shift = False\<rparr> demo_state =
    Ok (console_log (Log (''Navigation to #about - This would navigate to the about page in a full implementation''))
         (prevent_default demo_state))"
  using anchor_reserved [of demo_state 4 "''#about''"] by (simp add: demo_defs)

text \<open>
  C22. A click on any other fragment link whose identifier names an element cancels
  navigation and scrolls smoothly to the first element in document order with that id.
\<close>

theorem anchor_scrolls:
  assumes "attrs s x ''href'' = Some (CHR ''#'' # name)" and "\<not> reserved_fragment (CHR ''#'' # name)"
    and "starts_ident name" and "list_all is_name_char name"
    and "find (\<lambda>e. attrs s e ''id'' = Some name) (doc_order (tree s)) = Some t"
  shows "anchor_click x ev s = Ok (scroll_into_view t (prevent_default s))"
  using assms by (simp add: anchor_click_def query_id_selector_ident del: reserved_fragment_cases)

theorem anchor_scrolls_witness:
  "anchor_click 3 \<lparr>ev_type = Click, ev_target = El 3, ev_key = [], ev_shift = False\<rparr> demo_state =
   Ok (scroll_into_view 10 (prevent_default demo_state))"
  by (rule anchor_scrolls [where name = "''projects''"])
     (simp_all add: demo_defs starts_ident_def is_name_start_def is_name_char_def ident_cp_def ident_start_cp_def)

text \<open>
  C23. When no element has the identifier, the listener does nothing and the browser's
  default navigation proceeds.
\<close>

theorem anchor_missing_target:
  assumes "attrs s x ''href'' = Some (CHR ''#'' # name)" and "\<not> reserved_fragment (CHR ''#'' # name)"
    and "starts_ident name" and "list_all is_name_char name"
    and "find (\<lambda>e. attrs s e ''id'' = Some name) (doc_order (tree s)) = None"
  shows "anchor_click x ev s = Ok s"
  using assms by (simp add: anchor_click_def query_id_selector_ident del: reserved_fragment_cases)

theorem anchor_missing_target_witness:
  "anchor_click 3 \<lparr>ev_type = Click, ev_target = El 3, ev_key = [], ev_shift = False\<rparr>
     (demo_state\<lparr>attrs := (attrs demo_state)(3 := (attrs demo_state 3)(''href'' \<mapsto> ''#skills''))\<rparr>) =
   Ok (demo_state\<lparr>attrs := (attrs demo_state)(3 := (attrs demo_state 3)(''href'' \<mapsto> ''#skills''))\<rparr>)"
  by (rule anchor_missing_target [where name = "''skills''"])
     (simp_all add: demo_defs starts_ident_def is_name_start_def is_name_char_def ident_cp_def ident_start_cp_def)



end
