(* ===== verification/Perf.thy ===== *)
theory Perf
  imports Closures
begin

text \<open>
  \<^verbatim>\<open>PerformanceMonitor\<close> (\<^verbatim>\<open>src/app.js\<close> lines 236-255): a \<^verbatim>\<open>load\<close> listener
  on the window logs \<^verbatim>\<open>performance.timing.loadEventEnd - navigationStart\<close> and warns
  when it exceeds 3000 ms. The template literal prints the integer in decimal;
  \<open>int_to_str\<close> is that printing.
\<close>

fun nat_to_str :: "nat \<Rightarrow> string" where
  "nat_to_str n =
     (if n < 10 then [char_of (48 + n)] else nat_to_str (n div 10) @ [char_of (48 + n mod 10)])"

definition int_to_str :: "int \<Rightarrow> string" where
  "int_to_str i = (if i < 0 then CHR ''-'' # nat_to_str (nat (- i)) else nat_to_str (nat i))"

definition new_PerformanceMonitor :: "state stmt" where
  "new_PerformanceMonitor = stmt (add_listener Win Load PageLoad)"

definition page_load :: "event \<Rightarrow> state stmt" where
  "page_load ev s =
     (if has_performance s
      then (let loadTime = load_event_end s - navigation_start s;
                s1 = console_log (Log (''Page loaded in '' @ int_to_str loadTime @ ''ms'')) s
            in Ok (if 3000 < loadTime then console_log (Warn ''Page load time exceeds 3 seconds'') s1
                   else s1))
      else Ok s)"

declare nat_to_str.simps [simp del]

lemma page_load_eq:
  "has_performance s \<Longrightarrow>
   page_load ev s =
     Ok ((if 3000 < load_event_end s - navigation_start s
          then console_log (Warn ''Page load time exceeds 3 seconds'') else id)
         (console_log (Log (''Page loaded in '' @ int_to_str (load_event_end s - navigation_start s) @ ''ms'')) s))"
  by (simp add: page_load_def Let_def)

text \<open>
  C16. Read while \<^verbatim>\<open>loadEventEnd\<close> is still 0, the load time is minus the navigation
  start: the monitor logs a negative time and never warns, however slow the load was.
\<close>

theorem load_time_negative:
  assumes "has_performance s" and "load_event_end s = 0" and "0 \<le> navigation_start s"
  shows "page_load ev s = Ok (console_log (Log (''Page loaded in '' @ int_to_str (- navigation_start s) @ ''ms'')) s)"
  using assms by (simp add: page_load_eq)

theorem load_time_negative_witness:
  "page_load (\<lparr>ev_type = Load, ev_target = Win, ev_key = [], ev_shift = False\<rparr>) demo_state =
     Ok (console_log (Log (''Page loaded in '' @ int_to_str (- 1200) @ ''ms'')) demo_state)"
  using load_time_negative [of demo_state] by (simp add: demo_state_def)

end
