(* ===== verification/App.thy ===== *)
theory App
  imports Menu Cards SmoothScroll Perf
begin

text \<open>
  The whole script in its browser (\<^verbatim>\<open>src/app.js\<close> lines 4-18, 20-55, 101-103 and
  257-272). \<open>new_PortfolioApp\<close> looks the elements up and runs \<^verbatim>\<open>init\<close>:
  \<^verbatim>\<open>bindEvents\<close>, \<^verbatim>\<open>handleKeyboardNavigation\<close> and
  \<^verbatim>\<open>addProjectCardInteractivity\<close>, in that order, each registering listeners;
  \<open>dom_content_loaded\<close> is the bootstrap listener. \<open>run_listener\<close> gives every
  closure its body, \<open>dispatch\<close> runs the listeners along the event's propagation path
  (target first, then its ancestors, the document and the window), reporting a thrown
  error to the console and going on with the next listener, as browsers do.
  \<open>browser_step\<close> is one task of the event loop: a user input, the load event, or time
  passing with the timers that fall due.
\<close>

fun node_elem :: "node \<Rightarrow> elem" where
  "node_elem (Node e cs) = e"

definition document_body :: "state \<Rightarrow> elem" where
  "document_body s = node_elem (tree s)"

definition portfolio_refs :: "state \<Rightarrow> app_refs" where
  "portfolio_refs s =
     \<lparr>hamburger = query s ''hamburger'', mobileMenu = query s ''mobile-menu'',
      body = document_body s, mobileMenuLinks = query_all s ''mobile-menu__link''\<rparr>"

definition bindEvents :: "app_refs \<Rightarrow> state stmt" where
  "bindEvents a = js_seq
     [(case hamburger a of None \<Rightarrow> stmt id | Some h \<Rightarrow> stmt (add_listener (El h) Click (HamburgerClick a))),
      js_for_each (\<lambda>l. stmt (add_listener (El l) Click (LinkClick a))) (mobileMenuLinks a),
      (case mobileMenu a of None \<Rightarrow> stmt id | Some m \<Rightarrow> stmt (add_listener (El m) Click (MenuClick a))),
      stmt (add_listener Win Resize (WindowResize a)),
      stmt (add_listener Doc Keydown (EscapeKeydown a))]"

definition handleKeyboardNavigation :: "app_refs \<Rightarrow> state stmt" where
  "handleKeyboardNavigation a = on (mobileMenu a) (\<lambda>m. add_listener (El m) Keydown (MenuKeydown a))"

definition init :: "app_refs \<Rightarrow> state stmt" where
  "init a = js_seq [bindEvents a, handleKeyboardNavigation a, addProjectCardInteractivity]"

definition new_PortfolioApp :: "state stmt" where
  "new_PortfolioApp s = init (portfolio_refs s) s"

definition dom_content_loaded :: "state stmt" where
  "dom_content_loaded = js_seq
     [new_PortfolioApp, new_SmoothScroll,
      (\<lambda>s. if hostname s = ''localhost'' \<or> hostname s = ''127.0.0.1'' then new_PerformanceMonitor s else Ok s),
      (\<lambda>s. Ok (class_add (document_body s) ''loaded'' s)),
      stmt (console_log (Log ''Portfolio website initialized successfully!''))]"

text \<open>Evaluating the script registers the bootstrap listener (line 258).\<close>

definition script_eval :: "state \<Rightarrow> state" where
  "script_eval s = add_listener Doc DOMContentLoaded ContentLoaded s"

subsection \<open>Dispatch\<close>

fun run_listener :: "listener \<Rightarrow> event \<Rightarrow> state stmt" where
  "run_listener (HamburgerClick a) ev = hamburger_click a ev"
| "run_listener (LinkClick a) ev = link_click a ev"
| "run_listener (MenuClick a) ev = menu_click a ev"
| "run_listener (WindowResize a) ev = window_resize a ev"
| "run_listener (EscapeKeydown a) ev = escape_keydown a ev"
| "run_listener (MenuKeydown a) ev = menu_keydown a ev"
| "run_listener (CardClick c i) ev = card_click c i ev"
| "run_listener (CardKeydown c i) ev = card_keydown c i ev"
| "run_listener (CardEnter c) ev = card_enter c ev"
| "run_listener (CardLeave c) ev = card_leave c ev"
| "run_listener (AnchorClick x) ev = anchor_click x ev"
| "run_listener PageLoad ev = page_load ev"
| "run_listener ContentLoaded ev = dom_content_loaded"

fun run_callback :: "callback \<Rightarrow> state stmt" where
  "run_callback (FocusFirstItem a) = focus_first_item a"
| "run_callback (FocusHamburger a) = focus_hamburger a"
| "run_callback (ResetCardTransform c) = reset_card_transform c"

text \<open>An exception that leaves a listener or a timer callback is reported, not propagated.\<close>

fun report :: "state outcome \<Rightarrow> state" where
  "report (Ok s) = s"
| "report (Thrown e s) = console_log (Uncaught e) s"

definition listeners_at :: "state \<Rightarrow> target \<Rightarrow> event_type \<Rightarrow> listener list" where
  "listeners_at s t ty = map (\<lambda>(_, _, l). l) (filter (\<lambda>(t', ty', _). t' = t \<and> ty' = ty) (listeners s))"

fun invoke :: "listener list \<Rightarrow> event \<Rightarrow> state \<Rightarrow> state" where
  "invoke [] ev s = s"
| "invoke (l # ls) ev s = invoke ls ev (report (run_listener l ev s))"

fun propagate :: "target list \<Rightarrow> event \<Rightarrow> state \<Rightarrow> state" where
  "propagate [] ev s = s"
| "propagate (t # ts) ev s = propagate ts ev (invoke (listeners_at s t (ev_type ev)) ev s)"

definition bubbles :: "event_type \<Rightarrow> bool" where
  "bubbles ty \<longleftrightarrow> ty \<in> {Click, Keydown, DOMContentLoaded}"

definition event_path :: "state \<Rightarrow> event \<Rightarrow> target list" where
  "event_path s ev =
     (if \<not> bubbles (ev_type ev) then [ev_target ev]
      else (case ev_target ev of
              El e \<Rightarrow> (case path_to e (tree s) of Some p \<Rightarrow> map El (rev p) | None \<Rightarrow> [El e]) @ [Doc, Win]
            | Doc \<Rightarrow> [Doc, Win]
            | Win \<Rightarrow> [Win]))"

definition dispatch :: "event \<Rightarrow> state \<Rightarrow> state" where
  "dispatch ev s = propagate (event_path s ev) ev (s\<lparr>default_prevented := False\<rparr>)"

subsection \<open>The event loop\<close>

text \<open>
  Timers due by time \<open>t\<close> run in queue order, each with the clock at its due time;
  none of the script's callbacks sets a timer, so the due prefix of the queue is
  exactly what runs.
\<close>

definition fire_due :: "nat \<Rightarrow> state \<Rightarrow> state" where
  "fire_due t s =
     (fold (\<lambda>u s. report (run_callback (snd u) (s\<lparr>now := fst u\<rparr>)))
        (takeWhile (\<lambda>u. fst u \<le> t) (timers s))
        (s\<lparr>timers := dropWhile (\<lambda>u. fst u \<le> t) (timers s)\<rparr>))\<lparr>now := t\<rparr>"

text \<open>
  The browser's sequential focus navigation, the default action of Tab: the focusable
  elements in document order (links with an \<^verbatim>\<open>href\<close>, buttons, elements with
  \<^verbatim>\<open>tabindex="0"\<close>); past either end focus leaves the page and the body is active.
\<close>

definition focusable :: "state \<Rightarrow> elem \<Rightarrow> bool" where
  "focusable s e \<longleftrightarrow>
     (tag s e = ''a'' \<and> attrs s e ''href'' \<noteq> None) \<or> tag s e = ''button'' \<or>
     attrs s e ''tabindex'' = Some ''0''"

definition tab_order :: "state \<Rightarrow> elem list" where
  "tab_order s = filter (focusable s) (doc_order (tree s))"

definition tab_target :: "elem list \<Rightarrow> elem \<Rightarrow> bool \<Rightarrow> elem option" where
  "tab_target order e backwards =
     (let ord = (if backwards then rev order else order)
      in if e \<in> set ord then next_after ord e
         else (case ord of [] \<Rightarrow> None | x # _ \<Rightarrow> Some x))"

definition default_tab :: "bool \<Rightarrow> state \<Rightarrow> state" where
  "default_tab backwards s =
     (case tab_target (tab_order s) (active s) backwards of
        Some e \<Rightarrow> focus e s
      | None \<Rightarrow> focus (document_body s) s)"

datatype input =
    ClickOn elem
  | KeyPress string bool
  | PointerEnter elem
  | PointerLeave elem
  | ResizeWindow int
  | Wait nat
  | PageLoaded

definition mk_event :: "event_type \<Rightarrow> target \<Rightarrow> event" where
  "mk_event ty t = \<lparr>ev_type = ty, ev_target = t, ev_key = [], ev_shift = False\<rparr>"

text \<open>
  One task of the event loop. A key goes to the focused element. The load event fires
  once; \<^verbatim>\<open>loadEventEnd\<close> is recorded only when its listeners have returned.
\<close>

fun browser_step :: "input \<Rightarrow> state \<Rightarrow> state" where
  "browser_step (ClickOn e) s = dispatch (mk_event Click (El e)) s"
| "browser_step (KeyPress k sh) s =
     (let s' = dispatch \<lparr>ev_type = Keydown, ev_target = El (active s), ev_key = k, ev_shift = sh\<rparr> s
      in if k = ''Tab'' \<and> \<not> default_prevented s' then default_tab sh s' else s')"
| "browser_step (PointerEnter e) s = dispatch (mk_event MouseEnter (El e)) s"
| "browser_step (PointerLeave e) s = dispatch (mk_event MouseLeave (El e)) s"
| "browser_step (ResizeWindow w) s = dispatch (mk_event Resize Win) (s\<lparr>inner_width := w\<rparr>)"
| "browser_step (Wait n) s = fire_due (now s + n) s"
| "browser_step PageLoaded s =
     (if load_event_end s = 0
      then (let s' = dispatch (mk_event Load Win) s
            in s'\<lparr>load_event_end := navigation_start s' + int (now s')\<rparr>)
      else s)"

text \<open>
  The page after the script has run and the document has been parsed: the script
  registered its bootstrap listener and \<^verbatim>\<open>DOMContentLoaded\<close> was dispatched.
\<close>

definition page_ready :: "state \<Rightarrow> state" where
  "page_ready p = dispatch (mk_event DOMContentLoaded Doc) (script_eval p)"

fun run_inputs :: "input list \<Rightarrow> state \<Rightarrow> state" where
  "run_inputs [] s = s"
| "run_inputs (i # is) s = run_inputs is (browser_step i s)"

inductive reachable :: "state \<Rightarrow> state \<Rightarrow> bool" for p :: state where
  ready: "reachable p (page_ready p)"
| step: "reachable p s \<Longrightarrow> reachable p (browser_step i s)"

subsection \<open>What the script keeps true\<close>

text \<open>
  The listeners \<^verbatim>\<open>bindEvents\<close> registers, in order, when it runs on the references
  \<open>a\<close>.
\<close>

definition bind_listeners :: "app_refs \<Rightarrow> (target \<times> event_type \<times> listener) list" where
  "bind_listeners a =
     (case hamburger a of None \<Rightarrow> [] | Some h \<Rightarrow> [(El h, Click, HamburgerClick a)]) @
     map (\<lambda>l. (El l, Click, LinkClick a)) (mobileMenuLinks a) @
     (case mobileMenu a of None \<Rightarrow> [] | Some m \<Rightarrow> [(El m, Click, MenuClick a)]) @
     [(Win, Resize, WindowResize a), (Doc, Keydown, EscapeKeydown a)]"

text \<open>
  The invariant of the running page, for the references \<open>a\<close> the constructor took:
  the menu is consistent, every registered closure that captured a \<^verbatim>\<open>PortfolioApp\<close>
  captured \<open>a\<close> and only the bootstrap listens for \<^verbatim>\<open>DOMContentLoaded\<close> (on the
  document), and every pending callback that captured an app captured \<open>a\<close>.
\<close>

fun listener_app :: "listener \<Rightarrow> app_refs option" where
  "listener_app (HamburgerClick a) = Some a"
| "listener_app (LinkClick a) = Some a"
| "listener_app (MenuClick a) = Some a"
| "listener_app (WindowResize a) = Some a"
| "listener_app (EscapeKeydown a) = Some a"
| "listener_app (MenuKeydown a) = Some a"
| "listener_app _ = None"

fun callback_app :: "callback \<Rightarrow> app_refs option" where
  "callback_app (FocusFirstItem a) = Some a"
| "callback_app (FocusHamburger a) = Some a"
| "callback_app (ResetCardTransform c) = None"

fun listener_type :: "listener \<Rightarrow> event_type" where
  "listener_type (WindowResize a) = Resize"
| "listener_type (EscapeKeydown a) = Keydown"
| "listener_type (MenuKeydown a) = Keydown"
| "listener_type (CardKeydown c i) = Keydown"
| "listener_type (CardEnter c) = MouseEnter"
| "listener_type (CardLeave c) = MouseLeave"
| "listener_type PageLoad = Load"
| "listener_type ContentLoaded = DOMContentLoaded"
| "listener_type _ = Click"

definition listener_ok :: "app_refs \<Rightarrow> target \<times> event_type \<times> listener \<Rightarrow> bool" where
  "listener_ok a x = (case x of (t, ty, l) \<Rightarrow>
     listener_app l \<in> {None, Some a} \<and> ty = listener_type l \<and> (l = ContentLoaded \<longrightarrow> t = Doc) \<and>
     (l = MenuKeydown a \<longrightarrow> map_option El (mobileMenu a) = Some t))"

definition callback_ok :: "app_refs \<Rightarrow> nat \<times> callback \<Rightarrow> bool" where
  "callback_ok a u \<longleftrightarrow> callback_app (snd u) \<in> {None, Some a}"

definition script_inv :: "app_refs \<Rightarrow> state \<Rightarrow> bool" where
  "script_inv a s \<longleftrightarrow>
     menu_consistent a s \<and> list_all (listener_ok a) (listeners s) \<and> list_all (callback_ok a) (timers s)"

definition boot_inv :: "app_refs \<Rightarrow> state \<Rightarrow> bool" where
  "boot_inv a s \<longleftrightarrow> script_inv a s \<and> portfolio_refs s = a"

subsection \<open>Registration\<close>

lemma listener_type_ready [simp]:
  "listener_type l = DOMContentLoaded \<longleftrightarrow> l = ContentLoaded"
  "DOMContentLoaded = listener_type l \<longleftrightarrow> l = ContentLoaded"
  by (cases l; simp)+

lemma register_links:
  "js_for_each (\<lambda>l. stmt (add_listener (El l) Click (LinkClick a))) ls s =
   Ok (s\<lparr>listeners := listeners s @ map (\<lambda>l. (El l, Click, LinkClick a)) ls\<rparr>)"
  by (induction ls arbitrary: s) (simp_all add: add_listener_def)

lemma bindEvents_Ok: "bindEvents a s = Ok (s\<lparr>listeners := listeners s @ bind_listeners a\<rparr>)"
  by (cases "hamburger a"; cases "mobileMenu a")
     (simp_all add: bindEvents_def bind_listeners_def register_links add_listener_def)

text \<open>
  C25. When the page has no \<^verbatim>\<open>.mobile-menu\<close>, the bootstrap listener throws a
  \<open>TypeError\<close> in \<^verbatim>\<open>handleKeyboardNavigation\<close> right after \<^verbatim>\<open>bindEvents\<close>: only
  the listeners of \<^verbatim>\<open>bindEvents\<close> are registered, the cards are not set up,
  \<^verbatim>\<open>SmoothScroll\<close> and the load monitor are never created, the body never gets
  \<^verbatim>\<open>loaded\<close> and the success message is never logged.
\<close>

theorem missing_menu_aborts_bootstrap:
  assumes "query s ''mobile-menu'' = None"
  shows "dom_content_loaded s =
           Thrown TypeError (s\<lparr>listeners := listeners s @ bind_listeners (portfolio_refs s)\<rparr>)"
proof -
  have "mobileMenu (portfolio_refs s) = None" using assms by (simp add: portfolio_refs_def)
  then show ?thesis
    by (simp add: dom_content_loaded_def new_PortfolioApp_def init_def bindEvents_Ok
        handleKeyboardNavigation_def)
qed

theorem missing_menu_aborts_bootstrap_witness:
  "dom_content_loaded (demo_state\<lparr>classes := (classes demo_state)(2 := [])\<rparr>) =
   Thrown TypeError ((demo_state\<lparr>classes := (classes demo_state)(2 := [])\<rparr>)\<lparr>listeners :=
     listeners (demo_state\<lparr>classes := (classes demo_state)(2 := [])\<rparr>) @
     bind_listeners (portfolio_refs (demo_state\<lparr>classes := (classes demo_state)(2 := [])\<rparr>))\<rparr>)"
  by (rule missing_menu_aborts_bootstrap) (simp add: query_def demo_defs has_class_def)

lemma listeners_at_prevented [simp]:
  "listeners_at (s\<lparr>default_prevented := b\<rparr>) t ty = listeners_at s t ty"
  by (simp add: listeners_at_def)

text \<open>
  C26. The browser runs the load listeners before it records \<^verbatim>\<open>loadEventEnd\<close>, so on
  a page whose only load listener is the monitor's, the load event logs minus the
  navigation start and no warning.
\<close>

theorem load_logged_before_load_end:
  assumes "load_event_end s = 0" and "listeners_at s Win Load = [PageLoad]"
    and "has_performance s" and "0 \<le> navigation_start s"
  shows "console (browser_step PageLoaded s) =
           console s @ [Log (''Page loaded in '' @ int_to_str (- navigation_start s) @ ''ms'')]"
  using assms
  by (simp add: Let_def dispatch_def event_path_def bubbles_def mk_event_def page_load_eq console_log_def)

theorem load_logged_before_load_end_witness:
  "console (browser_step PageLoaded (demo_state\<lparr>listeners := [(Win, Load, PageLoad)]\<rparr>)) =
   [Log (''Page loaded in '' @ int_to_str (- 1200) @ ''ms'')]"
  using load_logged_before_load_end [of "demo_state\<lparr>listeners := [(Win, Load, PageLoad)]\<rparr>"]
  by (simp add: demo_state_def listeners_at_def)

subsection \<open>The menu stays consistent on the running page\<close>

lemma menu_consistent_cong:
  "classes s' = classes s \<Longrightarrow> attrs s' = attrs s \<Longrightarrow> menu_consistent a s' = menu_consistent a s"
  by (simp add: menu_consistent_def has_class_def split: option.splits)

lemma script_inv_frame:
  assumes "script_inv a s" and "classes s' = classes s" and "attrs s' = attrs s"
    and "listeners s' = listeners s" and "list_all (callback_ok a) (timers s')"
  shows "script_inv a s'"
  using assms menu_consistent_cong [OF assms(2,3)] by (simp add: script_inv_def)

text \<open>Statements of the menu change the menu's classes and attributes, and add only their own callbacks.\<close>

lemma menu_ops_frame:
  "listeners (final_state (openMobileMenu a s)) = listeners s"
  "list_all (callback_ok a) (timers s) \<Longrightarrow> list_all (callback_ok a) (timers (final_state (openMobileMenu a s)))"
  "listeners (final_state (closeMobileMenu a s)) = listeners s"
  "list_all (callback_ok a) (timers s) \<Longrightarrow> list_all (callback_ok a) (timers (final_state (closeMobileMenu a s)))"
  by (cases "hamburger a"; cases "mobileMenu a"; simp add: openMobileMenu_def closeMobileMenu_def callback_ok_def)+

lemma toggle_frame:
  "listeners (final_state (toggleMobileMenu a s)) = listeners s \<and>
   (list_all (callback_ok a) (timers s) \<longrightarrow> list_all (callback_ok a) (timers (final_state (toggleMobileMenu a s))))"
  by (cases "mobileMenu a") (auto simp: toggleMobileMenu_def menu_ops_frame)

lemma close_if_active_frame:
  "listeners (final_state (deref (mobileMenu a)
     (\<lambda>m s. if has_class s m ''active'' then closeMobileMenu a s else Ok s) s)) = listeners s \<and>
   (list_all (callback_ok a) (timers s) \<longrightarrow> list_all (callback_ok a) (timers (final_state (deref (mobileMenu a)
     (\<lambda>m s. if has_class s m ''active'' then closeMobileMenu a s else Ok s) s))))"
  by (cases "mobileMenu a") (auto simp: menu_ops_frame)

lemma keydown_frame:
  "listeners (final_state (menu_keydown a ev s)) = listeners s \<and>
   timers (final_state (menu_keydown a ev s)) = timers s"
  by (cases "mobileMenu a") (auto simp: menu_keydown_def Let_def js_index_def split: option.splits)

lemma menu_body_frame:
  assumes "b \<in> set (menu_bodies a ev)" and "list_all (callback_ok a) (timers s)"
  shows "listeners (final_state (b s)) = listeners s \<and> list_all (callback_ok a) (timers (final_state (b s)))"
proof -
  have "listeners (final_state (focus_first_item a s)) = listeners s \<and> timers (final_state (focus_first_item a s)) = timers s"
    by (cases "mobileMenu a") (auto simp: focus_first_item_def split: option.splits)
  moreover have "listeners (final_state (focus_hamburger a s)) = listeners s \<and> timers (final_state (focus_hamburger a s)) = timers s"
    by (cases "hamburger a") (simp_all add: focus_hamburger_def)
  moreover have "listeners (final_state (menu_click a ev s)) = listeners s \<and>
     list_all (callback_ok a) (timers (final_state (menu_click a ev s)))"
    using assms(2) by (simp add: menu_click_def menu_ops_frame)
  ultimately show ?thesis
    using assms toggle_frame [of a s] close_if_active_frame [of a s] keydown_frame [of a ev s] menu_ops_frame [of a s]
    by (auto simp: menu_bodies_def hamburger_click_def link_click_def window_resize_def
        handleResize_def escape_keydown_def)
qed

text \<open>The other parts' listeners touch neither classes, attributes nor listeners.\<close>

lemma card_click_frame:
  "classes (final_state (handleProjectCardClick c i s)) = classes s \<and>
   attrs (final_state (handleProjectCardClick c i s)) = attrs s \<and>
   listeners (final_state (handleProjectCardClick c i s)) = listeners s \<and>
   (list_all (callback_ok a) (timers s) \<longrightarrow> list_all (callback_ok a) (timers (final_state (handleProjectCardClick c i s))))"
  by (cases "query_in s c ''project-card__title''"; cases "query_in s c ''project-card__description''")
     (auto simp: handleProjectCardClick_def callback_ok_def)

lemma other_listener_frame:
  assumes "listener_app l = None" and "l \<noteq> ContentLoaded"
  shows "classes (final_state (run_listener l ev s)) = classes s \<and>
    attrs (final_state (run_listener l ev s)) = attrs s \<and>
    listeners (final_state (run_listener l ev s)) = listeners s \<and>
    (list_all (callback_ok a) (timers s) \<longrightarrow> list_all (callback_ok a) (timers (final_state (run_listener l ev s))))"
proof (cases l)
  case (CardClick c i)
  then show ?thesis using card_click_frame [of c i s a] by (simp add: card_click_def)
next
  case (CardKeydown c i)
  then show ?thesis using card_click_frame [of c i "prevent_default s" a] card_click_frame [of c i s a]
    by (cases "handleProjectCardClick c i s") (simp_all add: card_keydown_def prevent_default_def)
next
  case (CardEnter c)
  then show ?thesis by (simp add: card_enter_def enhanceCardHover_def split: option.splits)
next
  case (CardLeave c)
  then show ?thesis by (simp add: card_leave_def enhanceCardHover_def split: option.splits)
next
  case (AnchorClick x)
  then show ?thesis by (simp add: anchor_click_def split: option.splits sum.splits)
next
  case PageLoad
  then show ?thesis by (simp add: page_load_def Let_def)
qed (use assms in simp_all)

lemma report_listeners [simp]: "listeners (report r) = listeners (final_state r)"
  by (cases r) (simp_all add: console_log_def)

lemma report_final: "script_inv a (report r) = script_inv a (final_state r)"
proof (cases r)
  case (Thrown e t)
  have "menu_consistent a (console_log (Uncaught e) t) = menu_consistent a t"
    by (rule menu_consistent_cong) simp_all
  with Thrown show ?thesis by (simp add: script_inv_def)
qed simp

lemma menu_listener_body:
  "listener_app l = Some a \<Longrightarrow> run_listener l ev \<in> set (menu_bodies a ev)"
  by (cases l) (simp_all add: menu_bodies_def)

lemma run_listener_inv:
  assumes "script_inv a s" and "listener_ok a (t, ty, l)" and "ty \<noteq> DOMContentLoaded"
  shows "script_inv a (report (run_listener l ev s)) \<and> listeners (report (run_listener l ev s)) = listeners s"
proof -
  from assms(2,3) have l: "l \<noteq> ContentLoaded" and app: "listener_app l \<in> {None, Some a}"
    by (auto simp: listener_ok_def)
  show ?thesis
  proof (cases "listener_app l")
    case None
    with l other_listener_frame [of l ev s a] assms(1)
    have "script_inv a (final_state (run_listener l ev s))"
      by (intro script_inv_frame [OF assms(1)]) (simp_all add: script_inv_def)
    then show ?thesis using other_listener_frame [of l ev s a] None l by (simp add: report_final)
  next
    case (Some a')
    with app have b: "run_listener l ev \<in> set (menu_bodies a ev)" by (simp add: menu_listener_body)
    with assms(1) menu_body_consistent [of a s] menu_body_frame [OF b, of s]
    have "script_inv a (final_state (run_listener l ev s))"
      by (simp add: script_inv_def)
    moreover have "listeners (final_state (run_listener l ev s)) = listeners s"
      using menu_body_frame [OF b, of s] assms(1) by (simp add: script_inv_def)
    ultimately show ?thesis by (simp add: report_final)
  qed
qed

lemma listeners_at_in: "l \<in> set (listeners_at s t ty) \<Longrightarrow> (t, ty, l) \<in> set (listeners s)"
  by (auto simp: listeners_at_def)

lemma invoke_inv:
  assumes "script_inv a s" and "\<forall>l \<in> set ls. listener_ok a (t, ty, l)" and "ty \<noteq> DOMContentLoaded"
  shows "script_inv a (invoke ls ev s) \<and> listeners (invoke ls ev s) = listeners s"
  using assms
proof (induction ls arbitrary: s)
  case (Cons l ls)
  then have "script_inv a (report (run_listener l ev s)) \<and> listeners (report (run_listener l ev s)) = listeners s"
    using run_listener_inv [of a s t ty l ev] by simp
  with Cons show ?case by simp
qed simp

lemma propagate_inv:
  assumes "script_inv a s" and "ev_type ev \<noteq> DOMContentLoaded"
  shows "script_inv a (propagate ts ev s) \<and> listeners (propagate ts ev s) = listeners s"
  using assms
proof (induction ts arbitrary: s)
  case (Cons t ts)
  have "\<forall>l \<in> set (listeners_at s t (ev_type ev)). listener_ok a (t, ev_type ev, l)"
    using Cons.prems(1) by (auto simp: script_inv_def list_all_iff dest: listeners_at_in)
  with Cons.prems have "script_inv a (invoke (listeners_at s t (ev_type ev)) ev s) \<and>
      listeners (invoke (listeners_at s t (ev_type ev)) ev s) = listeners s"
    by (intro invoke_inv) simp_all
  with Cons show ?case by simp
qed simp

lemma dispatch_inv:
  assumes "script_inv a s" and "ev_type ev \<noteq> DOMContentLoaded"
  shows "script_inv a (dispatch ev s) \<and> listeners (dispatch ev s) = listeners s"
proof -
  have "script_inv a (s\<lparr>default_prevented := False\<rparr>)"
    using assms(1) by (intro script_inv_frame [OF assms(1)]) (simp_all add: script_inv_def)
  then show ?thesis unfolding dispatch_def using assms(2) propagate_inv by simp
qed

lemma run_callback_inv:
  assumes "script_inv a s" and "callback_ok a u"
  shows "script_inv a (report (run_callback (snd u) s)) \<and> listeners (report (run_callback (snd u) s)) = listeners s"
proof (cases "snd u")
  case (ResetCardTransform c)
  have "script_inv a (final_state (run_callback (snd u) s))"
    using ResetCardTransform assms(1)
    by (intro script_inv_frame [OF assms(1)]) (simp_all add: reset_card_transform_def script_inv_def)
  then show ?thesis using ResetCardTransform by (simp add: report_final reset_card_transform_def)
next
  case (FocusFirstItem a')
  with assms(2) have b: "run_callback (snd u) \<in> set (menu_bodies a (mk_event Click Win))"
    by (simp add: callback_ok_def menu_bodies_def)
  with assms(1) menu_body_consistent [of a s] menu_body_frame [OF b, of s]
  have "script_inv a (final_state (run_callback (snd u) s)) \<and> listeners (final_state (run_callback (snd u) s)) = listeners s"
    by (simp add: script_inv_def)
  then show ?thesis by (simp add: report_final)
next
  case (FocusHamburger a')
  with assms(2) have b: "run_callback (snd u) \<in> set (menu_bodies a (mk_event Click Win))"
    by (simp add: callback_ok_def menu_bodies_def)
  with assms(1) menu_body_consistent [of a s] menu_body_frame [OF b, of s]
  have "script_inv a (final_state (run_callback (snd u) s)) \<and> listeners (final_state (run_callback (snd u) s)) = listeners s"
    by (simp add: script_inv_def)
  then show ?thesis by (simp add: report_final)
qed

lemma script_inv_clock: "script_inv a (s\<lparr>now := t\<rparr>) = script_inv a s"
  by (simp add: script_inv_def menu_consistent_def has_class_def split: option.splits)

lemma fold_callbacks_inv:
  assumes "script_inv a s" and "list_all (callback_ok a) us"
  shows "script_inv a (fold (\<lambda>u s. report (run_callback (snd u) (s\<lparr>now := fst u\<rparr>))) us s) \<and>
    listeners (fold (\<lambda>u s. report (run_callback (snd u) (s\<lparr>now := fst u\<rparr>))) us s) = listeners s"
  using assms
proof (induction us arbitrary: s)
  case (Cons u us)
  then have "script_inv a (report (run_callback (snd u) (s\<lparr>now := fst u\<rparr>))) \<and>
      listeners (report (run_callback (snd u) (s\<lparr>now := fst u\<rparr>))) = listeners s"
    using run_callback_inv [of a "s\<lparr>now := fst u\<rparr>" u] by (simp add: script_inv_clock)
  with Cons show ?case by simp
qed simp

lemma fire_due_inv:
  assumes "script_inv a s"
  shows "script_inv a (fire_due t s) \<and> listeners (fire_due t s) = listeners s"
proof -
  let ?s0 = "s\<lparr>timers := dropWhile (\<lambda>u. fst u \<le> t) (timers s)\<rparr>"
  have all: "list_all (callback_ok a) (timers s)" using assms by (simp add: script_inv_def)
  have "script_inv a ?s0"
    using assms all by (intro script_inv_frame [OF assms]) (auto simp: list_all_iff dest: set_dropWhileD)
  moreover have "list_all (callback_ok a) (takeWhile (\<lambda>u. fst u \<le> t) (timers s))"
    using all by (auto simp: list_all_iff dest: set_takeWhileD)
  ultimately show ?thesis
    using fold_callbacks_inv [of a ?s0] unfolding fire_due_def by (simp add: script_inv_clock)
qed

lemma script_inv_fields:
  "script_inv a (s\<lparr>inner_width := w\<rparr>) = script_inv a s"
  "script_inv a (s\<lparr>load_event_end := n\<rparr>) = script_inv a s"
  "script_inv a (focus e s) = script_inv a s"
  by (simp_all add: script_inv_def menu_consistent_def has_class_def split: option.splits)

lemma default_tab_inv: "script_inv a (default_tab b s) = script_inv a s"
  by (simp add: default_tab_def script_inv_fields split: option.splits)

lemma default_tab_listeners [simp]: "listeners (default_tab b s) = listeners s"
  by (simp add: default_tab_def split: option.splits)

lemma browser_step_inv:
  assumes "script_inv a s"
  shows "script_inv a (browser_step i s) \<and> listeners (browser_step i s) = listeners s"
proof (cases i)
  case (KeyPress k sh)
  let ?ev = "\<lparr>ev_type = Keydown, ev_target = El (active s), ev_key = k, ev_shift = sh\<rparr>"
  have disp: "script_inv a (dispatch ?ev s) \<and> listeners (dispatch ?ev s) = listeners s"
    using assms by (rule dispatch_inv) simp
  have H: "script_inv a (if b then default_tab sh (dispatch ?ev s) else dispatch ?ev s) \<and>
      listeners (if b then default_tab sh (dispatch ?ev s) else dispatch ?ev s) = listeners s" for b
    using disp by (simp add: default_tab_inv)
  show ?thesis using KeyPress by (simp only: browser_step.simps Let_def H)
next
  case (ResizeWindow w)
  then show ?thesis
    using dispatch_inv [of a "s\<lparr>inner_width := w\<rparr>" "mk_event Resize Win"] assms
    by (simp add: script_inv_fields mk_event_def)
next
  case (Wait n)
  then show ?thesis using fire_due_inv [OF assms] by simp
next
  case PageLoaded
  then show ?thesis
    using dispatch_inv [OF assms, of "mk_event Load Win"] assms
    by (simp add: Let_def script_inv_fields mk_event_def)
qed (use dispatch_inv [OF assms] in \<open>simp_all add: mk_event_def\<close>)

lemma portfolio_refs_cong:
  assumes "tree s' = tree s" and "\<And>e c. c \<noteq> ''loaded'' \<Longrightarrow> has_class s' e c = has_class s e c"
  shows "portfolio_refs s' = portfolio_refs s"
  using assms by (simp add: portfolio_refs_def query_def query_all_def document_body_def)

lemma boot_inv_add_listener:
  "boot_inv a s \<Longrightarrow> listener_ok a (t, ty, l) \<Longrightarrow> boot_inv a (add_listener t ty l s)"
  using menu_consistent_cong [of "add_listener t ty l s" s a] portfolio_refs_cong [of "add_listener t ty l s" s]
  by (simp add: boot_inv_def script_inv_def)

lemma boot_inv_set_attribute:
  "boot_inv a s \<Longrightarrow> n \<noteq> ''aria-expanded'' \<Longrightarrow> boot_inv a (set_attribute e n v s)"
  using portfolio_refs_cong [of "set_attribute e n v s" s]
  by (auto simp: boot_inv_def script_inv_def menu_consistent_def split: option.splits)

lemma boot_inv_loaded:
  "boot_inv a s \<Longrightarrow> boot_inv a (class_add e ''loaded'' s)"
  using portfolio_refs_cong [of "class_add e ''loaded'' s" s]
  by (auto simp: boot_inv_def script_inv_def menu_consistent_def split: option.splits)

lemma boot_inv_log:
  "boot_inv a s \<Longrightarrow> boot_inv a (console_log m s)"
  using menu_consistent_cong [of "console_log m s" s a] portfolio_refs_cong [of "console_log m s" s]
  by (simp add: boot_inv_def script_inv_def)

lemma boot_inv_add_each:
  assumes "\<forall>x \<in> set xs. listener_ok a (t x, ty, l x)"
  shows "boot_inv a s \<Longrightarrow> boot_inv a (final_state (js_for_each (\<lambda>x. stmt (add_listener (t x) ty (l x))) xs s))"
  by (rule js_for_each_preserves) (use assms boot_inv_add_listener in auto)

lemma card_setup_boot:
  "boot_inv a s \<Longrightarrow> boot_inv a (final_state (card_setup ci s))"
  unfolding card_setup_def
  by (cases ci, simp only: prod.case, rule js_seq_preserves)
     (auto simp: listener_ok_def deref_def boot_inv_add_listener boot_inv_set_attribute split: option.splits
       intro!: boot_inv_add_listener boot_inv_set_attribute)

lemma bindEvents_boot:
  assumes "boot_inv a s"
  shows "boot_inv a (final_state (bindEvents a s))"
  unfolding bindEvents_def
proof (rule js_seq_preserves [where P = "boot_inv a", OF _ assms], intro ballI allI impI)
  fix f :: "state stmt" and s :: state
  assume f: "f \<in> set [(case hamburger a of None \<Rightarrow> stmt id | Some h \<Rightarrow> stmt (add_listener (El h) Click (HamburgerClick a))),
      js_for_each (\<lambda>l. stmt (add_listener (El l) Click (LinkClick a))) (mobileMenuLinks a),
      (case mobileMenu a of None \<Rightarrow> stmt id | Some m \<Rightarrow> stmt (add_listener (El m) Click (MenuClick a))),
      stmt (add_listener Win Resize (WindowResize a)),
      stmt (add_listener Doc Keydown (EscapeKeydown a))]"
    and s: "boot_inv a s"
  have links: "boot_inv a (final_state (js_for_each (\<lambda>l. stmt (add_listener (El l) Click (LinkClick a))) (mobileMenuLinks a) s))"
    using s by (rule boot_inv_add_each [rotated]) (simp add: listener_ok_def)
  show "boot_inv a (final_state (f s))"
    using f s links
    by (auto simp: listener_ok_def intro!: boot_inv_add_listener split: option.splits)
qed

lemma init_boot:
  assumes "boot_inv a s"
  shows "boot_inv a (final_state (init a s))"
proof -
  have kn: "\<forall>s. boot_inv a s \<longrightarrow> boot_inv a (final_state (handleKeyboardNavigation a s))"
    by (auto simp: handleKeyboardNavigation_def on_def listener_ok_def intro: boot_inv_add_listener
        split: option.splits)
  have cards: "\<forall>s. boot_inv a s \<longrightarrow> boot_inv a (final_state (addProjectCardInteractivity s))"
    unfolding addProjectCardInteractivity_def Let_def
    by (intro allI impI js_for_each_preserves [where P = "boot_inv a"]) (simp_all add: card_setup_boot)
  show ?thesis
    unfolding init_def
    by (rule js_seq_preserves [where P = "boot_inv a", OF _ assms]) (simp add: kn cards bindEvents_boot)
qed

lemma dom_content_loaded_boot:
  assumes "boot_inv a s"
  shows "boot_inv a (final_state (dom_content_loaded s))"
proof -
  have app: "\<forall>s. boot_inv a s \<longrightarrow> boot_inv a (final_state (new_PortfolioApp s))"
    using init_boot by (auto simp: new_PortfolioApp_def boot_inv_def)
  have scroll: "\<forall>s. boot_inv a s \<longrightarrow> boot_inv a (final_state (new_SmoothScroll s))"
    unfolding new_SmoothScroll_def
    by (intro allI impI boot_inv_add_each [where a = a]) (simp_all add: listener_ok_def)
  have perf: "\<forall>s. boot_inv a s \<longrightarrow> boot_inv a (final_state (new_PerformanceMonitor s))"
    by (simp add: new_PerformanceMonitor_def listener_ok_def boot_inv_add_listener)
  have host: "\<forall>s. boot_inv a s \<longrightarrow> boot_inv a (final_state
      (if hostname s = ''localhost'' \<or> hostname s = ''127.0.0.1'' then new_PerformanceMonitor s else Ok s))"
    using perf by simp
  have loaded: "\<forall>s. boot_inv a s \<longrightarrow> boot_inv a (final_state (Ok (class_add (document_body s) ''loaded'' s)))"
    by (simp add: boot_inv_loaded)
  have log: "\<forall>s. boot_inv a s \<longrightarrow> boot_inv a (final_state (stmt (console_log m) s))" for m
    by (simp add: boot_inv_log)
  show ?thesis
    unfolding dom_content_loaded_def
    by (rule js_seq_preserves [where P = "boot_inv a", OF _ assms])
       (simp only: list.set ball_simps insert_iff empty_iff, intro conjI app scroll host loaded log TrueI)
qed

lemma no_late_ready_listeners:
  "list_all (listener_ok a) (listeners s) \<Longrightarrow> listeners_at s Win DOMContentLoaded = []"
  by (auto simp: listeners_at_def listener_ok_def list_all_iff filter_empty_conv)

lemma page_ready_inv:
  assumes "listeners p = []" and "timers p = []" and "menu_consistent (portfolio_refs p) p"
  shows "script_inv (portfolio_refs p) (page_ready p) \<and>
    page_ready p = report (dom_content_loaded ((script_eval p)\<lparr>default_prevented := False\<rparr>))"
proof -
  let ?a = "portfolio_refs p"
  let ?ev = "mk_event DOMContentLoaded Doc"
  let ?s0 = "(script_eval p)\<lparr>default_prevented := False\<rparr>"
  have "menu_consistent ?a ?s0"
    using assms(3) menu_consistent_cong [of ?s0 p ?a] by (simp add: script_eval_def)
  moreover have "portfolio_refs ?s0 = ?a"
    by (rule portfolio_refs_cong) (simp_all add: script_eval_def has_class_def)
  ultimately have b0: "boot_inv ?a ?s0"
    using assms(1,2) by (simp add: boot_inv_def script_inv_def script_eval_def listener_ok_def)
  have at_doc: "listeners_at ?s0 Doc DOMContentLoaded = [ContentLoaded]"
    using assms(1) by (simp add: listeners_at_def script_eval_def)
  let ?s1 = "report (dom_content_loaded ?s0)"
  have "boot_inv ?a (final_state (dom_content_loaded ?s0))" by (rule dom_content_loaded_boot [OF b0])
  then have s1: "script_inv ?a ?s1" unfolding report_final boot_inv_def by simp
  then have "listeners_at ?s1 Win DOMContentLoaded = []"
    by (intro no_late_ready_listeners [of ?a]) (simp add: script_inv_def)
  then have "page_ready p = ?s1"
    using at_doc by (simp add: page_ready_def dispatch_def event_path_def bubbles_def mk_event_def)
  with s1 show ?thesis by simp
qed

subsection \<open>Registration during the bootstrap\<close>

lemma add_each_grows:
  "set (listeners s) \<subseteq> set (listeners (final_state (js_for_each (\<lambda>x. stmt (add_listener (t x) ty (l x))) xs s)))"
  by (rule js_for_each_grows [where R = "\<lambda>s s'. set (listeners s) \<subseteq> set (listeners s')"]) auto

lemma cards_grow:
  "set (listeners s) \<subseteq> set (listeners (final_state (addProjectCardInteractivity s)))"
proof -
  have step: "set (listeners s) \<subseteq> set (listeners (final_state (card_setup ci s)))" for ci s
    unfolding card_setup_def
    by (cases ci, simp only: prod.case, rule js_seq_grows [where R = "\<lambda>s s'. set (listeners s) \<subseteq> set (listeners s')"])
       (auto simp: deref_def split: option.splits)
  show ?thesis unfolding addProjectCardInteractivity_def Let_def
    by (rule js_for_each_grows [where R = "\<lambda>s s'. set (listeners s) \<subseteq> set (listeners s')"])
       (auto intro: step [THEN subsetD])
qed

lemma boot_tail_grows:
  "set (listeners s) \<subseteq> set (listeners (final_state (js_seq
     [new_SmoothScroll,
      (\<lambda>s. if hostname s = ''localhost'' \<or> hostname s = ''127.0.0.1'' then new_PerformanceMonitor s else Ok s),
      (\<lambda>s. Ok (class_add (document_body s) ''loaded'' s)),
      stmt (console_log (Log ''Portfolio website initialized successfully!''))] s)))"
  by (rule js_seq_grows [where R = "\<lambda>s s'. set (listeners s) \<subseteq> set (listeners s')"])
     (auto simp: new_SmoothScroll_def new_PerformanceMonitor_def intro: add_each_grows [THEN subsetD])

lemma keydown_registered:
  assumes "mobileMenu (portfolio_refs s) = Some m"
  shows "(El m, Keydown, MenuKeydown (portfolio_refs s)) \<in> set (listeners (final_state (dom_content_loaded s)))"
proof -
  let ?a = "portfolio_refs s"
  let ?s2 = "add_listener (El m) Keydown (MenuKeydown ?a) (s\<lparr>listeners := listeners s @ bind_listeners ?a\<rparr>)"
  have app: "new_PortfolioApp s = addProjectCardInteractivity ?s2"
    using assms by (simp add: new_PortfolioApp_def init_def bindEvents_Ok handleKeyboardNavigation_def)
  have x: "(El m, Keydown, MenuKeydown ?a) \<in> set (listeners (final_state (addProjectCardInteractivity ?s2)))"
    using cards_grow [of ?s2] by auto
  show ?thesis
  proof (cases "addProjectCardInteractivity ?s2")
    case (Ok s3)
    then show ?thesis using x boot_tail_grows [of s3] by (auto simp: dom_content_loaded_def app)
  next
    case (Thrown e s3)
    then show ?thesis using x by (simp add: dom_content_loaded_def app)
  qed
qed

subsection \<open>Dispatch along the propagation path\<close>

text \<open>
  A property kept by every listener registered for the event is kept by the dispatch;
  one established by a listener on the path and kept afterwards holds at its end.
\<close>

lemma invoke_preserves:
  assumes "\<And>l s. l \<in> set ls \<Longrightarrow> P s \<Longrightarrow> P (report (run_listener l ev s))" and "P s"
  shows "P (invoke ls ev s)"
  using assms by (induction ls arbitrary: s) simp_all

lemma invoke_establishes:
  assumes "\<And>l s. l \<in> set ls \<Longrightarrow> P s \<Longrightarrow> P (report (run_listener l ev s))"
    and "\<And>l s. l \<in> set ls \<Longrightarrow> Q s \<Longrightarrow> Q (report (run_listener l ev s))"
    and "\<And>s. P s \<Longrightarrow> Q (report (run_listener lst ev s))" and "lst \<in> set ls" and "P s"
  shows "Q (invoke ls ev s)"
  using assms
proof (induction ls arbitrary: s)
  case (Cons l ls)
  show ?case
  proof (cases "l = lst")
    case True
    then have "Q (report (run_listener l ev s))" using Cons.prems(3,5) by simp
    then show ?thesis using Cons.prems(2) invoke_preserves [of ls Q ev] by simp
  next
    case False
    then have "lst \<in> set ls" using Cons.prems(4) by simp
    moreover have "P (report (run_listener l ev s))" using Cons.prems(1,5) by simp
    ultimately show ?thesis using Cons.IH Cons.prems(1-3) by simp
  qed
qed simp

lemma listeners_at_mem: "(t, ty, l) \<in> set (listeners s) \<Longrightarrow> l \<in> set (listeners_at s t ty)"
  unfolding listeners_at_def set_map by (rule image_eqI [where x = "(t, ty, l)"]) simp_all

lemma propagate_preserves:
  assumes "\<And>s t l. P s \<Longrightarrow> (t, ev_type ev, l) \<in> set L \<Longrightarrow> P (report (run_listener l ev s))"
    and "\<And>s. P s \<Longrightarrow> listeners s = L" and "P s"
  shows "P (propagate ts ev s)"
  using assms(3)
proof (induction ts arbitrary: s)
  case (Cons t ts)
  have inL: "(t, ev_type ev, l) \<in> set L" if "l \<in> set (listeners_at s t (ev_type ev))" for l
    using that assms(2) [OF Cons.prems] listeners_at_in by metis
  have "P (invoke (listeners_at s t (ev_type ev)) ev s)"
    using Cons.prems by (rule invoke_preserves [rotated]) (rule assms(1), assumption, rule inL)
  then show ?case using Cons.IH by simp
qed simp

lemma propagate_establishes:
  assumes "\<And>s t l. P s \<Longrightarrow> (t, ev_type ev, l) \<in> set L \<Longrightarrow> P (report (run_listener l ev s))"
    and "\<And>s t l. Q s \<Longrightarrow> (t, ev_type ev, l) \<in> set L \<Longrightarrow> Q (report (run_listener l ev s))"
    and "\<And>s. P s \<Longrightarrow> listeners s = L" and "\<And>s. Q s \<Longrightarrow> listeners s = L"
    and "\<And>s. P s \<Longrightarrow> Q (report (run_listener lst ev s))"
    and "tgt \<in> set ts" and "(tgt, ev_type ev, lst) \<in> set L" and "P s"
  shows "Q (propagate ts ev s)"
  using assms(6,8)
proof (induction ts arbitrary: s)
  case (Cons t ts)
  have inL: "(t, ev_type ev, l) \<in> set L" if "l \<in> set (listeners_at s t (ev_type ev))" for l
    using that assms(3) [OF Cons.prems(2)] listeners_at_in by metis
  show ?case
  proof (cases "t = tgt")
    case True
    have mem: "lst \<in> set (listeners_at s t (ev_type ev))"
      using True assms(3) [OF Cons.prems(2)] assms(7) by (simp add: listeners_at_mem)
    have "Q (invoke (listeners_at s t (ev_type ev)) ev s)"
    proof (rule invoke_establishes [where P = P and lst = lst])
      fix l s' assume l: "l \<in> set (listeners_at s t (ev_type ev))" and p: "P s'"
      show "P (report (run_listener l ev s'))" by (rule assms(1) [OF p inL [OF l]])
    next
      fix l s' assume l: "l \<in> set (listeners_at s t (ev_type ev))" and q: "Q s'"
      show "Q (report (run_listener l ev s'))" by (rule assms(2) [OF q inL [OF l]])
    next
      fix s' assume "P s'"
      then show "Q (report (run_listener lst ev s'))" by (rule assms(5))
    next
      show "lst \<in> set (listeners_at s t (ev_type ev))" by (rule mem)
    next
      show "P s" by (rule Cons.prems(2))
    qed
    then have "Q (propagate ts ev (invoke (listeners_at s t (ev_type ev)) ev s))"
    proof (rule propagate_preserves [where P = Q and L = L, rotated 2])
      fix s' t' l assume "Q s'" and "(t', ev_type ev, l) \<in> set L"
      then show "Q (report (run_listener l ev s'))" by (rule assms(2))
    next
      fix s' assume "Q s'"
      then show "listeners s' = L" by (rule assms(4))
    qed
    then show ?thesis by simp
  next
    case False
    have "P (invoke (listeners_at s t (ev_type ev)) ev s)"
      using Cons.prems(2) by (rule invoke_preserves [rotated]) (rule assms(1), assumption, rule inL)
    then show ?thesis using Cons.IH Cons.prems(1) False by simp
  qed
qed simp

subsection \<open>Tab on an open menu\<close>

lemma keydown_listener_cases:
  assumes "list_all (listener_ok a) (listeners s)" and "(t, Keydown, l) \<in> set (listeners s)"
  shows "l = EscapeKeydown a \<or> l = MenuKeydown a \<or> (\<exists>c i. l = CardKeydown c i)"
proof -
  have "listener_ok a (t, Keydown, l)" using assms by (simp add: list_all_iff)
  then show ?thesis by (cases l) (auto simp: listener_ok_def)
qed

lemma query_cong:
  "tree s' = tree s \<Longrightarrow> classes s' = classes s \<Longrightarrow> has_class s' e c = has_class s e c"
  "tree s' = tree s \<Longrightarrow> classes s' = classes s \<Longrightarrow> query_all_in s' r c = query_all_in s r c"
  by (simp_all add: has_class_def query_all_in_def)

lemma tab_order_cong:
  assumes "tree s' = tree s" and "tag s' = tag s" and "attrs s' = attrs s"
  shows "tab_order s' = tab_order s"
proof -
  have "focusable s' = focusable s" using assms(2,3) by (simp add: fun_eq_iff focusable_def)
  then show ?thesis using assms(1) by (simp add: tab_order_def)
qed

lemma tab_target_within:
  assumes "distinct order" and "order = xs @ ys @ zs" and "x \<in> set ys"
    and "x \<noteq> (if b then hd ys else last ys)"
  shows "tab_target order x b = next_after (if b then rev ys else ys) x \<and>
         next_after (if b then rev ys else ys) x \<noteq> None"
proof (cases b)
  case False
  have "x \<notin> set xs" using assms(1-3) by auto
  then have "next_after order x = next_after ys x"
    using assms(2-4) False by (simp add: next_after_append_left next_after_append_right)
  then show ?thesis
    using False assms(2-4) next_after_exists [of x ys] by (simp add: tab_target_def)
next
  case True
  have ne: "ys \<noteq> []" using assms(3) by auto
  have "x \<notin> set (rev zs)" using assms(1-3) by auto
  moreover have l: "x \<noteq> last (rev ys)" using assms(4) True ne by (simp add: last_rev)
  ultimately have "next_after (rev order) x = next_after (rev ys) x"
    using assms(2,3) by (simp add: next_after_append_left next_after_append_right)
  then show ?thesis
    using True assms(2,3) l next_after_exists [of x "rev ys"] by (simp add: tab_target_def)
qed

lemma menu_keydown_tab:
  assumes "mobileMenu a = Some m" and "has_class s m ''active''"
    and "query_all_in s m ''mobile-menu__link'' = links" and "links \<noteq> []" and "ev_key ev = ''Tab''"
  shows "menu_keydown a ev s =
    (if active s = (if ev_shift ev then hd links else last links)
     then Ok (focus (if ev_shift ev then last links else hd links) (prevent_default s)) else Ok s)"
  using assms by (cases links) (auto simp: menu_keydown_def Let_def)

lemma tab_dispatch:
  fixes sh :: bool
  assumes inv: "script_inv a s" and m: "mobileMenu a = Some m" and open_: "has_class s m ''active''"
    and reg: "(El m, Keydown, MenuKeydown a) \<in> set (listeners s)"
    and dist: "distinct (doc_order (tree s))"
    and act: "active s \<in> set (query_all_in s m ''mobile-menu__link'')"
  defines "ev \<equiv> \<lparr>ev_type = Keydown, ev_target = El (active s), ev_key = ''Tab'', ev_shift = sh\<rparr>"
    and "links \<equiv> query_all_in s m ''mobile-menu__link''"
  shows "tree (dispatch ev s) = tree s \<and> tag (dispatch ev s) = tag s \<and> attrs (dispatch ev s) = attrs s \<and>
    (if default_prevented (dispatch ev s)
     then active (dispatch ev s) = (if sh then last links else hd links) \<and>
          active s = (if sh then hd links else last links)
     else active (dispatch ev s) = active s \<and> active s \<noteq> (if sh then hd links else last links))"
proof -
  define l0 where "l0 = active s"
  define en where "en = (if sh then hd links else last links)"
  define oe where "oe = (if sh then last links else hd links)"
  define P where "P (s' :: state) \<longleftrightarrow> tree s' = tree s \<and> classes s' = classes s \<and> attrs s' = attrs s \<and>
      tag s' = tag s \<and> listeners s' = listeners s \<and>
      (if default_prevented s' then active s' = oe \<and> l0 = en else active s' = l0)" for s'
  define Q where "Q (s' :: state) \<longleftrightarrow> P s' \<and> (\<not> default_prevented s' \<longrightarrow> l0 \<noteq> en)" for s'
  have ne: "links \<noteq> []" using act by (auto simp: links_def)
  have inert: "run_listener l ev s' = Ok s'" if "l = EscapeKeydown a \<or> (\<exists>c i. l = CardKeydown c i)" for l s'
    using that by (auto simp: ev_def escape_keydown_def card_keydown_def)
  have mk: "Q (report (run_listener (MenuKeydown a) ev s'))" if p: "P s'" for s'
  proof -
    have cls: "has_class s' m ''active''" and q: "query_all_in s' m ''mobile-menu__link'' = links"
      using p open_ query_cong [of s' s] by (simp_all add: P_def links_def)
    have k: "menu_keydown a ev s' = (if active s' = en then Ok (focus oe (prevent_default s')) else Ok s')"
      using menu_keydown_tab [OF m cls q ne] by (simp add: ev_def en_def oe_def)
    show ?thesis
    proof (cases "active s' = en")
      case True
      then have "l0 = en" using p by (simp add: P_def split: if_splits)
      then show ?thesis using p True k by (simp add: Q_def P_def focus_def prevent_default_def)
    next
      case False
      then show ?thesis using p k by (simp add: Q_def P_def split: if_splits)
    qed
  qed
  have cases_l: "l = EscapeKeydown a \<or> l = MenuKeydown a \<or> (\<exists>c i. l = CardKeydown c i)"
    if "(t, ev_type ev, l) \<in> set (listeners s)" for t l
    using keydown_listener_cases [of a s t l] inv that by (simp add: script_inv_def ev_def)
  have presP: "P (report (run_listener l ev s'))" if h: "P s'" and r: "(t, ev_type ev, l) \<in> set (listeners s)" for s' t l
  proof -
    consider "l = MenuKeydown a" | "l = EscapeKeydown a \<or> (\<exists>c i. l = CardKeydown c i)"
      using cases_l [OF r] by blast
    then show ?thesis
    proof cases
      case 1 then show ?thesis using mk [OF h] by (simp add: Q_def)
    next
      case 2 then show ?thesis using inert [of l s'] h by simp
    qed
  qed
  have presQ: "Q (report (run_listener l ev s'))" if h: "Q s'" and r: "(t, ev_type ev, l) \<in> set (listeners s)" for s' t l
  proof -
    consider "l = MenuKeydown a" | "l = EscapeKeydown a \<or> (\<exists>c i. l = CardKeydown c i)"
      using cases_l [OF r] by blast
    then show ?thesis
    proof cases
      case 1 then show ?thesis using mk [of s'] h by (simp add: Q_def)
    next
      case 2 then show ?thesis using inert [of l s'] h by simp
    qed
  qed
  obtain p where p: "path_to l0 (tree s) = Some p" "m \<in> set p"
    using descendant_on_path [OF _ dist] act by (auto simp: l0_def query_all_in_def)
  have path: "El m \<in> set (event_path s ev)"
    using p by (simp add: event_path_def bubbles_def ev_def l0_def)
  have start: "P (s\<lparr>default_prevented := False\<rparr>)"
    by (simp add: P_def l0_def)
  have "Q (dispatch ev s)"
    unfolding dispatch_def
  proof (rule propagate_establishes [where P = P and L = "listeners s" and tgt = "El m" and lst = "MenuKeydown a"])
    fix s' t l assume "P s'" and "(t, ev_type ev, l) \<in> set (listeners s)"
    then show "P (report (run_listener l ev s'))" by (rule presP)
  next
    fix s' t l assume "Q s'" and "(t, ev_type ev, l) \<in> set (listeners s)"
    then show "Q (report (run_listener l ev s'))" by (rule presQ)
  next
    fix s' assume "P s'" then show "listeners s' = listeners s" by (simp add: P_def)
  next
    fix s' assume "Q s'" then show "listeners s' = listeners s" by (simp add: Q_def P_def)
  next
    fix s' assume "P s'" then show "Q (report (run_listener (MenuKeydown a) ev s'))" by (rule mk)
  next
    show "(El m, ev_type ev, MenuKeydown a) \<in> set (listeners s)" using reg by (simp add: ev_def)
  qed (use path start in simp_all)
  then show ?thesis by (auto simp: Q_def P_def l0_def en_def oe_def split: if_splits)
qed

subsection \<open>Reachable states\<close>

lemma reachable_inv:
  assumes "reachable p s" and "listeners p = []" and "timers p = []"
    and "menu_consistent (portfolio_refs p) p"
  shows "script_inv (portfolio_refs p) s \<and> listeners s = listeners (page_ready p)"
  using assms(1)
proof (induction rule: reachable.induct)
  case ready
  have "script_inv (portfolio_refs p) (page_ready p)" using page_ready_inv [OF assms(2-4)] by (rule conjunct1)
  then show ?case by simp
next
  case (step s i)
  then show ?case using browser_step_inv [of "portfolio_refs p" s i] by simp
qed

lemma ready_menu_keydown:
  assumes "listeners p = []" and "timers p = []" and "menu_consistent (portfolio_refs p) p"
    and "mobileMenu (portfolio_refs p) = Some m"
  shows "(El m, Keydown, MenuKeydown (portfolio_refs p)) \<in> set (listeners (page_ready p))"
proof -
  let ?s0 = "(script_eval p)\<lparr>default_prevented := False\<rparr>"
  have refs: "portfolio_refs ?s0 = portfolio_refs p"
    by (rule portfolio_refs_cong) (simp_all add: script_eval_def has_class_def)
  have "(El m, Keydown, MenuKeydown (portfolio_refs ?s0)) \<in> set (listeners (final_state (dom_content_loaded ?s0)))"
    using assms(4) refs by (intro keydown_registered) simp
  then show ?thesis using page_ready_inv [OF assms(1-3)] refs by simp
qed

lemma demo_refs: "portfolio_refs demo_state = demo_app"
  by (simp add: portfolio_refs_def query_def query_all_def document_body_def demo_defs has_class_def)

text \<open>
  C27. Safety of the running page: on a freshly parsed page whose menu markup is
  consistent, in every state the event loop can reach after \<^verbatim>\<open>DOMContentLoaded\<close>
  (any clicks, keys, pointer moves, resizes, the load event and timers in any order) the
  hamburger's \<^verbatim>\<open>active\<close> class and \<^verbatim>\<open>aria-expanded\<close>, the menu's
  \<^verbatim>\<open>active\<close> class and the body's \<^verbatim>\<open>menu-open\<close> class agree.
\<close>

theorem reachable_menu_consistent:
  assumes "reachable p s" and "listeners p = []" and "timers p = []"
    and "menu_consistent (portfolio_refs p) p"
  shows "menu_consistent (portfolio_refs p) s"
  using reachable_inv [OF assms] by (simp add: script_inv_def)

theorem reachable_menu_consistent_witness:
  "menu_consistent (portfolio_refs demo_state)
     (browser_step (Wait 100) (browser_step (ClickOn 1) (page_ready demo_state)))"
proof -
  have r: "reachable demo_state (browser_step (Wait 100) (browser_step (ClickOn 1) (page_ready demo_state)))"
    by (intro reachable.step reachable.ready)
  have l: "listeners demo_state = []" and t: "timers demo_state = []"
    by (simp_all add: demo_state_def)
  have m: "menu_consistent (portfolio_refs demo_state) demo_state"
    unfolding demo_refs by (simp add: menu_consistent_def demo_defs has_class_def)
  show ?thesis by (rule reachable_menu_consistent [OF r l t m])
qed

text \<open>
  C28. Focus containment (spec section 4.1) on the running page: while the menu is open
  and focus is on one of its links, Tab moves focus to the next menu link and Shift+Tab
  to the previous one, from the last link back to the first and from the first to the
  last. The trap listener and the browser's own Tab navigation together form a closed
  focus loop over the ordered menu links. The page is assumed to have distinct element
  ids in its tree and the menu links consecutive in its tab order, as in the
  portfolio's markup.
\<close>

theorem tab_cycles_menu_links:
  assumes "reachable p s" and "listeners p = []" and "timers p = []"
    and "menu_consistent (portfolio_refs p) p"
    and "mobileMenu (portfolio_refs p) = Some m" and "has_class s m ''active''"
    and "distinct (doc_order (tree s))"
    and "tab_order s = xs @ query_all_in s m ''mobile-menu__link'' @ ys"
    and "active s \<in> set (query_all_in s m ''mobile-menu__link'')"
  shows "active (browser_step (KeyPress ''Tab'' sh) s) =
    (case next_after (if sh then rev (query_all_in s m ''mobile-menu__link'') else query_all_in s m ''mobile-menu__link'')
            (active s) of
       Some y \<Rightarrow> y
     | None \<Rightarrow> hd (if sh then rev (query_all_in s m ''mobile-menu__link'') else query_all_in s m ''mobile-menu__link''))"
proof -
  let ?a = "portfolio_refs p"
  let ?links = "query_all_in s m ''mobile-menu__link''"
  let ?ev = "\<lparr>ev_type = Keydown, ev_target = El (active s), ev_key = ''Tab'', ev_shift = sh\<rparr>"
  obtain s' where s'_eq: "dispatch ?ev s = s'" by simp
  have inv: "script_inv ?a s" and ls: "listeners s = listeners (page_ready p)"
    using reachable_inv [OF assms(1-4)] by simp_all
  have reg: "(El m, Keydown, MenuKeydown ?a) \<in> set (listeners s)"
    using ready_menu_keydown [OF assms(2-5)] ls by simp
  have D: "tree s' = tree s \<and> tag s' = tag s \<and> attrs s' = attrs s \<and>
    (if default_prevented s'
     then active s' = (if sh then last ?links else hd ?links) \<and> active s = (if sh then hd ?links else last ?links)
     else active s' = active s \<and> active s \<noteq> (if sh then hd ?links else last ?links))"
    using tab_dispatch [OF inv assms(5,6) reg assms(7,9), of sh] unfolding s'_eq .
  have dord: "distinct (tab_order s)" using assms(7) by (simp add: tab_order_def)
  then have dl: "distinct ?links" using assms(8) by simp
  have ne: "?links \<noteq> []" using assms(9) by auto
  have step: "browser_step (KeyPress ''Tab'' sh) s = (if default_prevented s' then s' else default_tab sh s')"
    using s'_eq by (simp add: Let_def)
  show ?thesis
  proof (cases "default_prevented s'")
    case True
    then have en: "active s = last (if sh then rev ?links else ?links)"
      using D by (simp add: last_rev)
    have "next_after (if sh then rev ?links else ?links) (active s) = None"
      unfolding en using dl next_after_last [of "if sh then rev ?links else ?links"] by simp
    then show ?thesis using True D step ne by (simp add: hd_rev)
  next
    case False
    have ord: "tab_order s' = tab_order s" using D by (intro tab_order_cong) simp_all
    have T: "tab_target (tab_order s) (active s) sh = next_after (if sh then rev ?links else ?links) (active s) \<and>
        next_after (if sh then rev ?links else ?links) (active s) \<noteq> None"
      using tab_target_within [OF dord assms(8,9)] False D by simp
    then obtain y where y: "next_after (if sh then rev ?links else ?links) (active s) = Some y" by auto
    then show ?thesis
      using False D step ord T by (simp add: default_tab_def focus_def)
  qed
qed

theorem tab_cycles_menu_links_witness:
  "active (browser_step (KeyPress ''Tab'' True)
     (browser_step (Wait 100) (browser_step (ClickOn 1) (page_ready demo_state)))) = 5"
proof -
  let ?s = "browser_step (Wait 100) (browser_step (ClickOn 1) (page_ready demo_state))"
  have r: "reachable demo_state ?s" by (intro reachable.step reachable.ready)
  have l: "listeners demo_state = []" and t: "timers demo_state = []"
    by (simp_all add: demo_state_def)
  have m: "menu_consistent (portfolio_refs demo_state) demo_state"
    unfolding demo_refs by (simp add: menu_consistent_def demo_defs has_class_def)
  have mm: "mobileMenu (portfolio_refs demo_state) = Some 2" by (simp add: demo_refs demo_app_def)
  have o: "has_class ?s 2 ''active''" by code_simp
  have d: "distinct (doc_order (tree ?s))" by code_simp
  have q: "query_all_in ?s 2 ''mobile-menu__link'' = [3, 4, 5]" by code_simp
  have tord: "tab_order ?s = [1] @ query_all_in ?s 2 ''mobile-menu__link'' @ [6]" by code_simp
  have act: "active ?s = 3" by code_simp
  show ?thesis
    using tab_cycles_menu_links [OF r l t m mm o d tord, of True] q act by simp
qed

end
