(* ===== verification/Spec2Isabelle.thy ===== *)
theory Spec2Isabelle
  imports App
begin

text \<open>
  \<^bold>\<open>A verified model of the portfolio page script \<^verbatim>\<open>src/app.js\<close>.\<close>

  \<^bold>\<open>The program.\<close> One browser script. At load it registers a
  \<^verbatim>\<open>DOMContentLoaded\<close> listener. When that listener runs it constructs
  \<^verbatim>\<open>PortfolioApp\<close> (the mobile menu and the project cards), then \<^verbatim>\<open>SmoothScroll\<close>
  (fragment links) and, on localhost, \<^verbatim>\<open>PerformanceMonitor\<close> (a load-time log).
  Then it marks the body \<^verbatim>\<open>loaded\<close> and logs a message. All later behaviour is
  event listeners and \<^verbatim>\<open>setTimeout\<close> callbacks that the browser's event loop runs one
  at a time. The parts share no variables; they interact only through the DOM (class
  lists, attributes, focus) and through the order in which the browser runs their
  listeners.

  \<^bold>\<open>Theories and what they model.\<close>
  \<^item> \<open>Prelude\<close>: statements as functions \<open>state \<Rightarrow> state outcome\<close>. A property read
    on \<^verbatim>\<open>null\<close> is \<open>Thrown TypeError s\<close>, where \<open>s\<close> is the state at the throw,
    since effects before a throw persist. \<open>js_seq\<close> is a statement block,
    \<open>on\<close>/\<open>deref\<close> a use of a reference that may be null, and \<open>js_for_each\<close> is
    \<^verbatim>\<open>forEach\<close>. The theory also has the rules that carry properties through these.
  \<^item> \<open>Dom\<close>: the environment. It holds the document tree (static), class lists as
    token lists (\<^verbatim>\<open>classList.add\<close> appends an absent token), attributes, inline
    transforms, the focused element, the listener registry, and the timer queue. The
    queue is sorted by due time, and timers due at the same time keep the order they
    were set (\<open>ins_timer\<close>, with its \<open>takeWhile\<close>/\<open>dropWhile\<close> reference form).
    \<open>query\<close> and \<open>query_all\<close> are \<^verbatim>\<open>querySelector\<close> and
    \<^verbatim>\<open>querySelectorAll\<close> for one class, in document order. The theory also has
    read-after-write and frame rules for every operation.
  \<^item> \<open>Closures\<close>: the interface between the parts. \<open>app_refs\<close> is the state of a
    \<^verbatim>\<open>PortfolioApp\<close> object (constructor, lines 5-12). \<open>listener\<close> and
    \<open>callback\<close> name every closure passed to \<^verbatim>\<open>addEventListener\<close> and
    \<^verbatim>\<open>setTimeout\<close>, with what each captures. \<open>demo_state\<close> is a concrete page
    shaped like the portfolio markup, which the witnesses evaluate on.
  \<^item> \<open>Menu\<close>: \<^verbatim>\<open>openMobileMenu\<close>, \<^verbatim>\<open>closeMobileMenu\<close>,
    \<^verbatim>\<open>toggleMobileMenu\<close> and \<^verbatim>\<open>handleResize\<close> (lines 57-99), the listener bodies
    of \<^verbatim>\<open>bindEvents\<close> (lines 20-55), the focus trap (lines 101-126) and the two focus
    callbacks. Also here are \<open>menu_state_of\<close>, the abstraction to the spec's
    \<open>Closed\<close>/\<open>Open\<close> (the menu's \<^verbatim>\<open>active\<close> class), and \<open>spec_menu_step\<close>, the
    transitions of spec section 4.1.
  \<^item> \<open>Cards\<close>: \<^verbatim>\<open>addProjectCardInteractivity\<close>,
    \<^verbatim>\<open>handleProjectCardClick\<close>, \<^verbatim>\<open>enhanceCardHover\<close> and
    \<^verbatim>\<open>showProjectModal\<close> (lines 128-197).
  \<^item> \<open>SmoothScroll\<close>: anchor selection and the click listener (lines 201-233). It
    includes \<^verbatim>\<open>document.querySelector(href)\<close> for ID selectors as CSS parses them.
  \<^item> \<open>Perf\<close>: the load listener (lines 236-255) and the decimal printing of the
    load time.
  \<^item> \<open>App\<close>: the constructor and \<^verbatim>\<open>init\<close>, \<^verbatim>\<open>bindEvents\<close> and
    \<^verbatim>\<open>handleKeyboardNavigation\<close> as registration, and the bootstrap (lines
    257-272). \<open>run_listener\<close>/\<open>run_callback\<close> give every closure its body.
    \<open>dispatch\<close> runs the listeners along the propagation path (target, ancestors,
    document, window); a throw is reported to the console and the next listener runs.
    \<open>browser_step\<close> is one event-loop task: a click, a key press (with the browser's
    sequential Tab navigation as default action), a pointer move, a resize, time
    passing with the due timers, or the load event. \<open>reachable\<close> is the set of
    states after \<^verbatim>\<open>DOMContentLoaded\<close> and any sequence of tasks. The
    invariant \<open>script_inv\<close> records that every registered closure captured the one
    app object and is registered for its own event type (\<open>listener_type\<close>);
    \<open>propagate_preserves\<close> and \<open>propagate_establishes\<close> carry a property of single
    listeners through a whole dispatch.

  \<^bold>\<open>What is proved\<close> (the claims C1-C28, each next to a text block naming it).
  \<^item> Menu (C1-C15): toggling refines the specification's toggle and never throws
    when both elements exist (C1). n toggles open the menu exactly when n is odd (C2).
    The effects of open and close on classes, \<^verbatim>\<open>aria-expanded\<close>, the body and the
    focus timers are proved (C3, C4). The focus trap wraps Tab and Shift+Tab at the
    ends and otherwise changes nothing (C5-C7). Escape, resize and scrim clicks behave
    as spec section 8 says (C8-C12). Every menu block keeps the visual and
    accessibility state consistent (C13). With missing elements the code throws
    instead of skipping, sometimes after partial effects (C14, C15).
  \<^item> Load timing: the load listener runs before \<^verbatim>\<open>loadEventEnd\<close> is recorded, so
    it logs a negative time and never warns (C16, and end to end through the event
    loop C26).
  \<^item> Cards (C17-C20): the press animation and its reset, Enter/Space cancelling the
    default before running the click handler (visible when the handler throws), and the
    TypeErrors of a missing description (on click) and of a missing title (which stops
    the set-up loop).
  \<^item> Smooth scroll (C21-C24): reserved fragments, scrolling to an existing target,
    the missing target, and the SyntaxError of fragments that do not start a CSS ident
    sequence. \<open>query_id_selector\<close> follows CSS Syntax on code points: input
    preprocessing, the would-start-an-ident-sequence test and escape decoding (so
    \<^verbatim>\<open>#\32 024-work\<close> reaches the id \<^verbatim>\<open>2024-work\<close>, lemma
    \<open>escaped_digit_selector\<close>); \<open>consume_ident\<close> is a \<open>function\<close> with a
    termination proof on the length of the input.
  \<^item> Whole page: a missing \<^verbatim>\<open>.mobile-menu\<close> aborts the bootstrap after
    \<^verbatim>\<open>bindEvents\<close> (C25). The menu stays consistent in every reachable state of
    the event loop, whatever the interleaving of events and timers (C27, by rule
    induction over \<open>reachable\<close>, with the invariant \<open>script_inv\<close> that every
    registered closure captured the one app object). Focus containment holds end to
    end (C28): on the running page, with the menu open and focus on a menu link, a Tab
    key press, dispatched along the propagation path to every registered keydown
    listener and followed by the browser's default Tab navigation when not cancelled,
    moves focus to the cyclic successor of the link (predecessor for Shift+Tab). Its
    proof shows that after \<^verbatim>\<open>DOMContentLoaded\<close> the listener registry never
    changes, that the trap listener is registered on the menu, which lies on the path
    from any of its links, and that the other keydown listeners ignore Tab.

  \<^bold>\<open>Bounds and fuel.\<close> None are needed. Every loop of the script is a
  \<^verbatim>\<open>forEach\<close> over a finite list (structural recursion). The timer loop
  \<open>fire_due\<close> runs over the due prefix of the queue, which is exact because no
  callback of the script sets a timer. The selector tokenizer consumes at least one code
  point per step. JavaScript numbers are unbounded \<open>int\<close>/\<open>nat\<close> here; the values
  involved (widths, ms timestamps) stay far below 2^53.

  \<^bold>\<open>Not modelled, and simplifications.\<close> CSS, layout and visibility are not
  modelled: a hidden menu link can still take focus in the model. \<^verbatim>\<open>mouseenter\<close> is
  dispatched to the entered element only. \<^verbatim>\<open>querySelector\<close> on a fragment accepts
  one ID selector, optionally followed by whitespace; other selector forms (classes,
  combinators, pseudo-classes) are treated as syntax errors, a narrowing of real
  selectors. Strings are lists of 8-bit characters, so an id attribute can never equal
  an escape that denotes a code point above 255. Navigation after a click that is not
  prevented is not modelled. The CommonJS export (lines 275-277) has no behaviour.
\<close>

end
